theory Spec2Isabelle
  imports Main "HOL-Library.Word" "HOL-Library.AList"
begin

section \<open>Data model of App.svelte\<close>

text \<open>
  The component keeps its state in module-level reactive variables. They are gathered in the
  record \<open>app\<close>; every function of the component takes the record and returns it updated.
  Archive entries are the \<open>zip.Entry\<close> objects of zip.js reduced to the three members the
  component reads: \<open>filename\<close>, \<open>directory\<close> and the optional accessor \<open>getData\<close>.
  An accessor that is present either yields the bytes of the entry or rejects with an error.
  Strings are lists of characters, one for each code unit of the JavaScript string.
\<close>

type_synonym bytes = "8 word list"

datatype error = Error string | TypeError string

record entry =
  filename :: string
  directory :: bool
  getData :: "(error + bytes) option"

record File =
  name :: string
  content :: bytes

text \<open>
  Values of a parsed property list, as far as the component looks into them: strings,
  integers, booleans, arrays and dictionaries. A JavaScript \<open>undefined\<close> is \<open>None\<close> of
  \<open>plist option\<close>.
\<close>

datatype plist =
    PString string
  | PInt int
  | PBool bool
  | PArray "plist list"
  | PDict "(string \<times> plist) list"

text \<open>
  What the archive writer of zip.js has been given: \<open>ZDir p\<close> for
  \<open>zipWriter.add(p, undefined, {directory: true})\<close> and \<open>ZFile p d\<close> for
  \<open>zipWriter.add(p, new BlobReader(d))\<close>. A blob handed to \<open>saveBlob\<close> is either the
  uploaded file itself or the archive the writer produced from the entries it was given.
  The writer is the library's: it is taken to accept every entry it is given, and the
  archive it produces is identified with the list of those entries.
\<close>

datatype zentry = ZDir string | ZFile string bytes

datatype blob = FileBlob File | ZipBlob "zentry list"

record app =
  files :: "File list option"
  abortController :: "bool option"
  ipa :: "entry list option"
  metadata :: "plist option"
  appIcon :: "bytes option"
  extensions :: "entry list"
  extensionsToKeep :: "(string \<times> bool) list"
  saving :: bool
  progress :: nat
  progressMax :: nat
  progressText :: string
  downloads :: "(blob \<times> string) list"
  progressLog :: "nat list"

text \<open>
  \<open>abortController\<close> holds \<open>Some b\<close> for a controller whose signal has the \<open>aborted\<close> flag
  \<open>b\<close>. \<open>appIcon\<close> holds the decoded image behind the object URL. Two fields are history
  variables with no counterpart in the source: \<open>downloads\<close> lists the calls of \<open>saveBlob\<close>
  (blob and download name), and \<open>progressLog\<close> lists the values assigned to \<open>progress\<close>, in
  order.
\<close>

section \<open>String helpers\<close>

definition startsWith :: "string \<Rightarrow> string \<Rightarrow> bool" where
  "startsWith s p = (take (length p) s = p)"

definition endsWith :: "string \<Rightarrow> string \<Rightarrow> bool" where
  "endsWith s p = (length p \<le> length s \<and> drop (length s - length p) s = p)"

text \<open>\<open>s.split("/")\<close>: the segments between slashes; never empty.\<close>

fun split_slash :: "string \<Rightarrow> string list" where
  "split_slash [] = [[]]"
| "split_slash (c # cs) =
     (if c = CHR ''/'' then [] # split_slash cs
      else (case split_slash cs of
              [] \<Rightarrow> [[c]]
            | x # xs \<Rightarrow> (c # x) # xs))"

text \<open>\<open>xs.at(-k) || ""\<close> for \<open>k \<ge> 1\<close>: the k-th element from the end, or the empty
  string when there is none (an empty segment is falsy and gives the empty string too).\<close>

definition at_neg_or_empty :: "string list \<Rightarrow> nat \<Rightarrow> string" where
  "at_neg_or_empty xs k = (if 1 \<le> k \<and> k \<le> length xs then xs ! (length xs - k) else [])"

definition ellipsis :: "string \<Rightarrow> nat \<Rightarrow> string" where
  "ellipsis text mx =
     (if length text > mx then take (mx - 3) text @ ''...'' else text)"

section \<open>The progress total\<close>

text \<open>
  \<open>Math.round(ipa.length * 1.1)\<close> is computed on IEEE doubles. The double nearest to 1.1 is
  \<open>double_1_1 / 2^52\<close>. The product of an integer \<open>n\<close> below \<open>2^53\<close> with it is the exact
  product rounded to 53 significant bits, ties to even; \<open>times_1_1 n\<close> is that double,
  scaled by \<open>2^52\<close>. \<open>Math.round\<close> is the floor of its argument plus one half.
\<close>

definition double_1_1 :: nat where
  "double_1_1 = 4953959590107546"

fun bit_length :: "nat \<Rightarrow> nat" where
  "bit_length n = (if n = 0 then 0 else Suc (bit_length (n div 2)))"

declare bit_length.simps [simp del]

definition round_ties_even :: "nat \<Rightarrow> nat \<Rightarrow> nat" where
  "round_ties_even p s =
     (let q = p div 2 ^ s; r = p mod 2 ^ s
      in if 2 * r < 2 ^ s then q
         else if 2 * r > 2 ^ s then q + 1
         else if even q then q else q + 1)"

definition times_1_1 :: "nat \<Rightarrow> nat" where
  "times_1_1 n =
     (let p = n * double_1_1; s = bit_length p - 53
      in round_ties_even p s * 2 ^ s)"

definition Math_round_times_1_1 :: "nat \<Rightarrow> nat" where
  "Math_round_times_1_1 n = (2 * times_1_1 n + 2 ^ 52) div 2 ^ 53"

section \<open>The rebuild: \<open>_saveIPA\<close>\<close>

text \<open>
  \<open>saveIPA'\<close> is the source's \<open>_saveIPA\<close>, an asynchronous promise executor that runs
  up to its first \<open>await\<close> as soon as it is called. Besides the component state it has
  local state, the record \<open>job\<close>: the flag \<open>aborted\<close>, the state of the promise it returns,
  the archive writer (\<open>None\<close> until it is created, then the entries it has been given) and
  whether the writer has been closed. An exception inside the executor (\<open>thrown\<close>) ends it
  without settling the promise.

  The abort signal is an input. Its listener can only run while the executor is suspended
  at an \<open>await\<close>; \<open>AbortsDuring k\<close> is a signal whose abort event is dispatched during the
  executor's await number \<open>k\<close> (counting from 0). A listener added to a signal that has
  already aborted is never called, so \<open>AlreadyAborted\<close> arms nothing, like \<open>NeverAborts\<close>;
  \<open>saveIPA\<close> itself always passes the signal of a controller it has just created.
  \<open>abortIn\<close> counts the awaits left before the event. The run that is modelled ends when
  the executor returns or throws; an abort after that is outside it.
\<close>

datatype signal = AlreadyAborted | AbortsDuring nat | NeverAborts

datatype promise = Pending | Resolved | Rejected error

record job =
  aborted :: bool
  promise :: promise
  abortIn :: "nat option"
  zipWriter :: "zentry list option"
  closed :: bool
  thrown :: "error option"

definition settle :: "promise \<Rightarrow> promise \<Rightarrow> promise" where
  "settle new old = (if old = Pending then new else old)"

definition set_progress :: "nat \<Rightarrow> app \<Rightarrow> app" where
  "set_progress v a = a\<lparr>progress := v, progressLog := progressLog a @ [v]\<rparr>"

definition saveBlob :: "blob \<Rightarrow> string \<Rightarrow> app \<Rightarrow> app" where
  "saveBlob b fn a = a\<lparr>downloads := downloads a @ [(b, fn)]\<rparr>"

definition addEventListener :: "signal \<Rightarrow> nat option" where
  "addEventListener sig = (case sig of AbortsDuring k \<Rightarrow> Some k | _ \<Rightarrow> None)"

definition abort_listener :: "app \<times> job \<Rightarrow> app \<times> job" where
  "abort_listener aj =
     (case aj of (a, j) \<Rightarrow>
        ((set_progress 0 a)\<lparr>progressMax := 0\<rparr>,
         j\<lparr>aborted := True, promise := settle (Rejected (Error ''Aborted'')) (promise j)\<rparr>))"

definition await :: "app \<times> job \<Rightarrow> app \<times> job" where
  "await aj =
     (case aj of (a, j) \<Rightarrow>
        (case abortIn j of
           None \<Rightarrow> (a, j)
         | Some 0 \<Rightarrow> abort_listener (a, j\<lparr>abortIn := None\<rparr>)
         | Some (Suc k) \<Rightarrow> (a, j\<lparr>abortIn := Some k\<rparr>)))"

definition zadd :: "zentry \<Rightarrow> job \<Rightarrow> job" where
  "zadd z j = j\<lparr>zipWriter := map_option (\<lambda>w. w @ [z]) (zipWriter j)\<rparr>"

definition keeps :: "(string \<times> bool) list \<Rightarrow> string \<Rightarrow> bool" where
  "keeps m k = (case map_of m k of None \<Rightarrow> False | Some b \<Rightarrow> b)"

definition extensionsToRemove :: "app \<Rightarrow> string list" where
  "extensionsToRemove a =
     map filename (filter (\<lambda>extension. \<not> keeps (extensionsToKeep a) (filename extension))
                          (extensions a))"

definition skip :: "string list \<Rightarrow> entry \<Rightarrow> bool" where
  "skip rm e = list_ex (\<lambda>extension. startsWith (filename e) extension) rm"

definition dir_text :: "entry \<Rightarrow> string" where
  "dir_text e =
     ''Creating directory '' @ ellipsis (at_neg_or_empty (split_slash (filename e)) 2) 15"

definition file_text :: "entry \<Rightarrow> string" where
  "file_text e = ''Adding '' @ ellipsis (at_neg_or_empty (split_slash (filename e)) 1) 30"

text \<open>The \<open>for (const entry of ipa)\<close> loop, lines 153 to 176.\<close>

fun entry_loop :: "string list \<Rightarrow> entry list \<Rightarrow> app \<times> job \<Rightarrow> app \<times> job" where
  "entry_loop rm [] aj = aj"
| "entry_loop rm (e # es) (a, j) =
     (if aborted j then (a, j)
      else
        let a1 = set_progress (progress a + 1) a in
        if skip rm e then entry_loop rm es (a1, j)
        else if directory e then
          entry_loop rm es (await (a1\<lparr>progressText := dir_text e\<rparr>, zadd (ZDir (filename e)) j))
        else
          (case getData e of
             None \<Rightarrow> entry_loop rm es (a1, j)
           | Some rd \<Rightarrow>
               (case await (a1\<lparr>progressText := file_text e\<rparr>, j) of (a2, j2) \<Rightarrow>
                  (case rd of
                     Inl err \<Rightarrow> (a2, j2\<lparr>thrown := Some err\<rparr>)
                   | Inr d \<Rightarrow> entry_loop rm es (await (a2, zadd (ZFile (filename e) d) j2))))))"

text \<open>Lines 177 to 185: closing the writer and handing the archive to \<open>saveBlob\<close>.\<close>

definition finish :: "File \<Rightarrow> app \<times> job \<Rightarrow> app \<times> job" where
  "finish f aj =
     (case aj of (a, j) \<Rightarrow>
        if thrown j \<noteq> None then (a, j)
        else
          (case await (if \<not> aborted j then a\<lparr>progressText := ''Finalizing archive''\<rparr> else a,
                       j\<lparr>closed := True\<rparr>) of (a1, j1) \<Rightarrow>
             if aborted j1 then (a1, j1)
             else
               (case await (a1\<lparr>progressText := ''Saving archive''\<rparr>, j1) of (a2, j2) \<Rightarrow>
                  let a3 = saveBlob (ZipBlob (case zipWriter j2 of None \<Rightarrow> [] | Some w \<Rightarrow> w))
                                    (name f) a2;
                      a4 = set_progress (progressMax a3) a3
                  in (a4\<lparr>progressText := ''Done!''\<rparr>,
                      j2\<lparr>promise := settle Resolved (promise j2)\<rparr>))))"

definition new_job :: "signal \<Rightarrow> job" where
  "new_job sig =
     \<lparr>aborted = False, promise = Pending, abortIn = addEventListener sig,
      zipWriter = None, closed = False, thrown = None\<rparr>"

definition saveIPA' :: "signal \<Rightarrow> app \<Rightarrow> app \<times> job" where
  "saveIPA' sig a =
     (let j = new_job sig;
          a0 = set_progress 0 a
      in case (files a0, ipa a0) of
           (Some (f # fs), Some es) \<Rightarrow>
             if list_all snd (extensionsToKeep a0) then
               (if aborted j then (a0, j)
                else
                  ((saveBlob (FileBlob f) (name f)
                      ((set_progress 1 (a0\<lparr>progressMax := 1\<rparr>))\<lparr>progressText := ''Done!''\<rparr>)),
                   j\<lparr>promise := settle Resolved (promise j)\<rparr>))
             else
               (let rm = extensionsToRemove (a0\<lparr>progressText := ''Filtering extensions''\<rparr>);
                    a1 = a0\<lparr>progressText := ''Creating new IPA archive'',
                            progressMax := Math_round_times_1_1 (length es)\<rparr>
                in finish f (entry_loop rm es (a1, j\<lparr>zipWriter := Some []\<rparr>)))
         | _ \<Rightarrow> (a0, j\<lparr>promise := settle (Rejected (Error ''IPA not loaded'')) (promise j)\<rparr>))"

section \<open>The path patterns\<close>

text \<open>
  The two regular-expression literals of the component, over a small matcher. \<open>Lit\<close> is a
  run of literal characters, \<open>Plus c\<close> is a character class repeated once or more, \<open>Opt\<close>
  is \<open>(...)?\<close>, \<open>Cap\<close> is the capturing group whose text the component reads. \<open>rx_run\<close>
  lists the ways a pattern matches at the start of a string, in the order a backtracking
  matcher tries them (greedy first), each with the captured text and the rest of the
  string; \<open>rx_match\<close> tries the start positions from left to right, as an unanchored
  pattern does. Groups that are never read are not marked.
\<close>

datatype cls = Is char | IsNot char

datatype rx = Lit string | Plus cls | Opt rx | Seq rx rx | Cap rx

definition in_cls :: "cls \<Rightarrow> char \<Rightarrow> bool" where
  "in_cls c x = (case c of Is y \<Rightarrow> x = y | IsNot y \<Rightarrow> x \<noteq> y)"

fun plus_rems :: "cls \<Rightarrow> string \<Rightarrow> string list" where
  "plus_rems c [] = []"
| "plus_rems c (x # xs) = (if in_cls c x then plus_rems c xs @ [xs] else [])"

fun rx_run :: "rx \<Rightarrow> string \<Rightarrow> (string option \<times> string) list" where
  "rx_run (Lit l) s = (if startsWith s l then [(None, drop (length l) s)] else [])"
| "rx_run (Plus c) s = map (Pair None) (plus_rems c s)"
| "rx_run (Opt r) s = rx_run r s @ [(None, s)]"
| "rx_run (Seq r1 r2) s =
     concat (map (\<lambda>m1. map (\<lambda>m2. (case fst m2 of None \<Rightarrow> fst m1 | Some c \<Rightarrow> Some c, snd m2))
                              (rx_run r2 (snd m1)))
                 (rx_run r1 s))"
| "rx_run (Cap r) s =
     map (\<lambda>m. (Some (take (length s - length (snd m)) s), snd m)) (rx_run r s)"

fun rx_match :: "rx \<Rightarrow> string \<Rightarrow> (string option \<times> string) option" where
  "rx_match r [] = (case rx_run r [] of [] \<Rightarrow> None | m # ms \<Rightarrow> Some m)"
| "rx_match r (x # xs) = (case rx_run r (x # xs) of [] \<Rightarrow> rx_match r xs | m # ms \<Rightarrow> Some m)"

definition rx_test :: "rx \<Rightarrow> string \<Rightarrow> bool" where
  "rx_test r s = (rx_match r s \<noteq> None)"

text \<open>\<^verbatim>\<open>/((:?\/)?Payload\/[^/]+\.app\/)Info\.plist/\<close>\<close>

definition metadataRegex :: rx where
  "metadataRegex =
     Seq (Seq (Opt (Seq (Opt (Lit '':'')) (Lit ''/'')))
              (Seq (Lit ''Payload/'') (Seq (Plus (IsNot CHR ''/'')) (Lit ''.app/''))))
         (Lit ''Info.plist'')"

text \<open>\<^verbatim>\<open>/Payload\/[^/]+\.app\/PlugIns\/(?:([^/]+)\.appex)\//\<close>\<close>

definition extensionRegex :: rx where
  "extensionRegex =
     Seq (Lit ''Payload/'')
      (Seq (Plus (IsNot CHR ''/''))
        (Seq (Lit ''.app/PlugIns/'')
          (Seq (Seq (Cap (Plus (IsNot CHR ''/''))) (Lit ''.appex'')) (Lit ''/''))))"

definition getExtensionName :: "string \<Rightarrow> string option" where
  "getExtensionName path =
     (case rx_match extensionRegex path of None \<Rightarrow> None | Some m \<Rightarrow> fst m)"

text \<open>
  The icon pattern is built at run time from the icon name, which is spliced into the
  pattern source unescaped. \<open>appIconRegex_source\<close> is that source text (\<open>CHR 0x5C\<close> is the
  backslash):
  \<^verbatim>\<open>Payload\/[^/]+\.app\/${appIconName}(@\d+x)?\.[^/]+\<close>.
  Compiling it is the \<open>RegExp\<close> constructor of the platform, a collaborator below.
\<close>

definition appIconRegex_source :: "string \<Rightarrow> string" where
  "appIconRegex_source appIconName =
     ''Payload'' @ [CHR 0x5C] @ ''/[^/]+'' @ [CHR 0x5C] @ ''.app'' @ [CHR 0x5C] @ ''/''
     @ appIconName @ ''(@'' @ [CHR 0x5C] @ ''d+x)?'' @ [CHR 0x5C] @ ''.[^/]+''"

section \<open>JavaScript values of the descriptor\<close>

definition truthy :: "plist option \<Rightarrow> bool" where
  "truthy v =
     (case v of
        None \<Rightarrow> False
      | Some (PString s) \<Rightarrow> s \<noteq> []
      | Some (PInt i) \<Rightarrow> i \<noteq> 0
      | Some (PBool b) \<Rightarrow> b
      | Some (PArray xs) \<Rightarrow> True
      | Some (PDict kvs) \<Rightarrow> True)"

text \<open>\<open>v.key\<close> for one of the descriptor keys: a dictionary is looked up, any other value has
  no such member and gives \<open>undefined\<close>.\<close>

definition js_member :: "plist \<Rightarrow> string \<Rightarrow> plist option" where
  "js_member v k = (case v of PDict kvs \<Rightarrow> map_of kvs k | _ \<Rightarrow> None)"

text \<open>\<open>v[0]\<close>: the first element of an array, the first character of a string, the member
  \<open>"0"\<close> of a dictionary, and \<open>undefined\<close> otherwise.\<close>

definition index0 :: "plist \<Rightarrow> plist option" where
  "index0 v =
     (case v of
        PArray xs \<Rightarrow> (case xs of [] \<Rightarrow> None | x # _ \<Rightarrow> Some x)
      | PString s \<Rightarrow> (case s of [] \<Rightarrow> None | c # _ \<Rightarrow> Some (PString [c]))
      | PDict kvs \<Rightarrow> map_of kvs ''0''
      | _ \<Rightarrow> None)"

fun digits :: "nat \<Rightarrow> string" where
  "digits n =
     (if n < 10 then [char_of (48 + n)] else digits (n div 10) @ [char_of (48 + n mod 10)])"

fun join_comma :: "string list \<Rightarrow> string" where
  "join_comma [] = []"
| "join_comma [x] = x"
| "join_comma (x # y # ys) = x @ '','' @ join_comma (y # ys)"

text \<open>String conversion, as a template literal applies it (an integer below \<open>10^21\<close> in
  absolute value is printed in decimal).\<close>

fun toString :: "plist \<Rightarrow> string" where
  "toString (PString s) = s"
| "toString (PInt i) = (if i < 0 then ''-'' @ digits (nat (- i)) else digits (nat i))"
| "toString (PBool b) = (if b then ''true'' else ''false'')"
| "toString (PArray xs) = join_comma (map toString xs)"
| "toString (PDict kvs) = ''[object Object]''"

definition template :: "plist option \<Rightarrow> string" where
  "template v = (case v of None \<Rightarrow> ''undefined'' | Some p \<Rightarrow> toString p)"

section \<open>Loading: \<open>loadIPA\<close> and \<open>getMetadata\<close>\<close>

text \<open>
  The libraries the component calls are collaborators, taken as parameters: opening the
  archive (\<open>new ZipReader(new BlobReader(file)).getEntries()\<close>), the property-list parser,
  the CgBI decoder and the \<open>RegExp\<close> constructor, which gives the pattern's \<open>test\<close>
  function or raises on a malformed source. Each may fail with an error.
\<close>

record env =
  getEntries :: "File \<Rightarrow> error + entry list"
  parsePlist :: "bytes \<Rightarrow> error + plist"
  cgbiToPng :: "bytes \<Rightarrow> error + bytes"
  RegExp :: "string \<Rightarrow> error + (string \<Rightarrow> bool)"

text \<open>
  \<open>getMetadata\<close>, lines 83 to 97. \<open>Inl\<close> is an exception that leaves the function; the read
  of the entry stands before the \<open>try\<close> block, the parse inside it.
\<close>

definition getMetadata :: "env \<Rightarrow> app \<Rightarrow> error + plist option" where
  "getMetadata env a =
     (case ipa a of
        None \<Rightarrow> Inr None
      | Some es \<Rightarrow>
          (case find (\<lambda>entry. rx_test metadataRegex (filename entry)) es of
             None \<Rightarrow> Inr None
           | Some metadataEntry \<Rightarrow>
               (case getData metadataEntry of
                  None \<Rightarrow> Inr None
                | Some (Inl err) \<Rightarrow> Inl err
                | Some (Inr metadataBlob) \<Rightarrow>
                    (case parsePlist env metadataBlob of
                       Inl err \<Rightarrow> Inr None
                     | Inr parsed \<Rightarrow> Inr (Some parsed)))))"

text \<open>\<open>Object.fromEntries\<close>: a later pair replaces an earlier one with the same key.\<close>

definition fromEntries :: "(string \<times> bool) list \<Rightarrow> (string \<times> bool) list" where
  "fromEntries kvs = foldl (\<lambda>m kv. AList.update (fst kv) (snd kv) m) [] kvs"

text \<open>
  Lines 66 to 80 of \<open>loadIPA\<close>: the icon. The result pairs the state with the exception that
  ended the function, if any. Reading a member of \<open>undefined\<close> is a \<open>TypeError\<close>.
\<close>

definition loadIcon :: "env \<Rightarrow> app \<Rightarrow> app \<times> error option" where
  "loadIcon env a =
     (case metadata a of
        None \<Rightarrow> (a, None)
      | Some m \<Rightarrow>
          if \<not> truthy (js_member m ''CFBundleIcons'') then (a, None)
          else
            (case js_member m ''CFBundleIcons'' of
               None \<Rightarrow> (a, None)
             | Some cfBundleIcons \<Rightarrow>
                 (case js_member cfBundleIcons ''CFBundlePrimaryIcon'' of
                    None \<Rightarrow> (a, Some (TypeError ''primaryIcon is undefined''))
                  | Some primaryIcon \<Rightarrow>
                      (case js_member primaryIcon ''CFBundleIconFiles'' of
                         None \<Rightarrow> (a, Some (TypeError ''iconFiles is undefined''))
                       | Some iconFiles \<Rightarrow>
                           (case RegExp env (appIconRegex_source (template (index0 iconFiles))) of
                              Inl err \<Rightarrow> (a, Some err)
                            | Inr regex \<Rightarrow>
                                (case ipa a of
                                   None \<Rightarrow> (a, Some (TypeError ''ipa is null''))
                                 | Some es \<Rightarrow>
                                     (case find (\<lambda>entry. regex (filename entry)) es of
                                        None \<Rightarrow> (a, None)
                                      | Some iconEntry \<Rightarrow>
                                          (case getData iconEntry of
                                             None \<Rightarrow> (a, None)
                                           | Some (Inl err) \<Rightarrow> (a, Some err)
                                           | Some (Inr iconData) \<Rightarrow>
                                               (case cgbiToPng env iconData of
                                                  Inl err \<Rightarrow> (a, Some err)
                                                | Inr decodedPng \<Rightarrow>
                                                    (a\<lparr>appIcon := Some decodedPng\<rparr>,
                                                     None))))))))))"

definition discover :: "entry list \<Rightarrow> entry list" where
  "discover entries =
     filter (\<lambda>entry. directory entry \<and> endsWith (filename entry) ''.appex/'') entries"

definition loadIPA :: "env \<Rightarrow> app \<Rightarrow> app \<times> error option" where
  "loadIPA env a =
     (case files a of
        None \<Rightarrow> (a, Some (Error ''No file selected''))
      | Some [] \<Rightarrow> (a, Some (Error ''No file selected''))
      | Some (f # fs) \<Rightarrow>
          (case getEntries env f of
             Inl err \<Rightarrow> (a, Some err)
           | Inr entries \<Rightarrow>
               let a1 = a\<lparr>ipa := Some entries,
                          extensions := discover entries,
                          extensionsToKeep :=
                            fromEntries (map (\<lambda>extension. (filename extension, True))
                                             (discover entries))\<rparr>
               in (case getMetadata env a1 of
                     Inl err \<Rightarrow> (a1, Some err)
                   | Inr md \<Rightarrow> loadIcon env (a1\<lparr>metadata := md\<rparr>))))"

text \<open>
  The sub-component convention in the words of the specification, as a predicate on path
  segments: the path is \<open>Payload/<x>.app/PlugIns/<y>.appex/\<close> with non-empty \<open>x\<close> and \<open>y\<close>.
  It is stated for comparison with \<open>discover\<close>; the component itself never tests it.
\<close>

definition subcomponent_convention :: "string \<Rightarrow> bool" where
  "subcomponent_convention p =
     (case split_slash p of
        [a, b, c, d, e] \<Rightarrow>
          a = ''Payload'' \<and> endsWith b ''.app'' \<and> length b > 4 \<and> c = ''PlugIns''
          \<and> endsWith d ''.appex'' \<and> length d > 6 \<and> e = []
      | _ \<Rightarrow> False)"

section \<open>Clearing, toggling and the save button\<close>

text \<open>
  \<open>clearIPA\<close>. Aborting the controller runs the listener of the rebuild that registered on
  its signal, unless the signal has aborted before; of the listener only the writes to the
  component state show here.
\<close>

definition clearIPA :: "app \<Rightarrow> app" where
  "clearIPA a =
     (let a1 = (case abortController a of
                  Some False \<Rightarrow> (set_progress 0 a)\<lparr>progressMax := 0, abortController := Some True\<rparr>
                | _ \<Rightarrow> a)
      in (set_progress 0
            (a1\<lparr>files := None, ipa := None, metadata := None, appIcon := None,
                extensions := [], extensionsToKeep := [], saving := False\<rparr>))
         \<lparr>progressMax := 0, progressText := ''Idle''\<rparr>)"

text \<open>The \<open>onchange\<close> handler of a toggle.\<close>

definition toggle :: "string \<Rightarrow> app \<Rightarrow> app" where
  "toggle k a =
     a\<lparr>extensionsToKeep := AList.update k (\<not> keeps (extensionsToKeep a) k) (extensionsToKeep a)\<rparr>"

text \<open>
  \<open>saveIPA\<close> in two parts. \<open>saveIPA_enter\<close> is lines 106 to 110: \<open>None\<close> when the guard
  returns, otherwise the state in which \<open>_saveIPA\<close> is called. \<open>saveIPA_finally\<close> is the
  \<open>finally\<close> block, which runs once the promise of \<open>_saveIPA\<close> has settled. \<open>saveIPA\<close> puts
  them around one run of \<open>_saveIPA\<close> on the fresh signal, which aborts during await
  \<open>k\<close> (\<open>Some k\<close>) or not at all; it returns the job it started, if any. A promise that
  never settles leaves the \<open>finally\<close> block unreached.
\<close>

definition saveIPA_enter :: "app \<Rightarrow> app option" where
  "saveIPA_enter a =
     (if abortController a \<noteq> None \<or> saving a then None
      else Some (a\<lparr>abortController := Some False, saving := True\<rparr>))"

definition saveIPA_finally :: "app \<Rightarrow> app" where
  "saveIPA_finally a = a\<lparr>abortController := None, saving := False\<rparr>"

definition saveIPA :: "nat option \<Rightarrow> app \<Rightarrow> app \<times> job option" where
  "saveIPA abortAt a =
     (case saveIPA_enter a of
        None \<Rightarrow> (a, None)
      | Some a1 \<Rightarrow>
          (case saveIPA' (case abortAt of None \<Rightarrow> NeverAborts | Some k \<Rightarrow> AbortsDuring k) a1 of
             (a2, j) \<Rightarrow>
               (if promise j = Pending then a2 else saveIPA_finally a2, Some j)))"

text \<open>
  The states the component can be in while a call of \<open>saveIPA\<close> is between its call of
  \<open>_saveIPA\<close> and its \<open>finally\<close> block: the state it entered with, changed by anything else
  the component does in the meantime. These are the assignments of the running
  \<open>_saveIPA\<close> (to the progress variables and, through \<open>saveBlob\<close>, the downloads), the
  other handlers (\<open>clearIPA\<close>, a toggle) and a \<open>loadIPA\<close>.
\<close>

inductive in_flight :: "app \<Rightarrow> bool" where
  entered: "saveIPA_enter a = Some a1 \<Longrightarrow> in_flight a1"
| job_write: "in_flight a \<Longrightarrow>
     in_flight (a\<lparr>progress := p, progressMax := m, progressText := t, downloads := d,
                  progressLog := l\<rparr>)"
| cleared: "in_flight a \<Longrightarrow> in_flight (clearIPA a)"
| toggled: "in_flight a \<Longrightarrow> in_flight (toggle k a)"
| loaded: "in_flight a \<Longrightarrow> in_flight (fst (loadIPA env a))"

section \<open>Notions used to state the properties\<close>







text \<open>\<open>advance a m t\<close> is the state \<open>a\<close> after \<open>m\<close> increments of \<open>progress\<close>, with status
  text \<open>t\<close>.\<close>

definition advance :: "app \<Rightarrow> nat \<Rightarrow> string \<Rightarrow> app" where
  "advance a m t =
     a\<lparr>progress := progress a + m, progressText := t,
       progressLog := progressLog a @ [Suc (progress a)..<Suc (progress a + m)]\<rparr>"

text \<open>\<open>join_slash\<close> puts segments back together with slashes, the inverse of
  \<open>split_slash\<close>.\<close>

fun join_slash :: "string list \<Rightarrow> string" where
  "join_slash [] = []"
| "join_slash [x] = x"
| "join_slash (x # y # ys) = x @ CHR ''/'' # join_slash (y # ys)"

section \<open>Example states\<close>

text \<open>
  The catalog of the specification's example: the application directory, its descriptor,
  one extension directory and a file inside it. \<open>loaded es keep\<close> is the component after
  loading a package with catalog \<open>es\<close>, in the middle of a save, with the extension's
  toggle at \<open>keep\<close>.
\<close>

definition example_file :: File where
  "example_file = \<lparr>name = ''App.ipa'', content = [80, 75, 3, 4]\<rparr>"

definition app_dir :: entry where
  "app_dir = \<lparr>filename = ''Payload/App.app/'', directory = True, getData = None\<rparr>"

definition info_plist :: entry where
  "info_plist = \<lparr>filename = ''Payload/App.app/Info.plist'', directory = False,
                  getData = Some (Inr [98, 112])\<rparr>"

definition plugins_dir :: entry where
  "plugins_dir = \<lparr>filename = ''Payload/App.app/PlugIns/'', directory = True, getData = None\<rparr>"

definition ext_dir :: entry where
  "ext_dir = \<lparr>filename = ''Payload/App.app/PlugIns/Ext.appex/'', directory = True,
               getData = None\<rparr>"

definition ext_file :: entry where
  "ext_file = \<lparr>filename = ''Payload/App.app/PlugIns/Ext.appex/Ext'', directory = False,
                getData = Some (Inr [207, 250])\<rparr>"

definition no_accessor :: entry where
  "no_accessor = \<lparr>filename = ''Payload/App.app/Assets.car'', directory = False,
                   getData = None\<rparr>"

definition loaded :: "entry list \<Rightarrow> bool \<Rightarrow> app" where
  "loaded es keep =
     \<lparr>files = Some [example_file], abortController = Some False, ipa = Some es,
      metadata = None, appIcon = None, extensions = [ext_dir],
      extensionsToKeep = [(''Payload/App.app/PlugIns/Ext.appex/'', keep)],
      saving = True, progress = 0, progressMax = 0, progressText = ''Idle'',
      downloads = [], progressLog = []\<rparr>"

definition spec_example :: app where
  "spec_example = loaded [app_dir, info_plist, ext_dir, ext_file] False"

definition no_accessor_example :: app where
  "no_accessor_example = loaded [app_dir, no_accessor, ext_dir, ext_file] False"

definition five_entries_example :: app where
  "five_entries_example = loaded [app_dir, info_plist, plugins_dir, ext_dir, ext_file] False"

text \<open>
  States and collaborators for loading. \<open>dropped\<close> is the component right after a file was
  dropped on it. \<open>example_env es\<close> opens every file as the catalog \<open>es\<close>; its parser and
  decoder reject everything. \<open>unreadable_descriptor\<close> is a file whose read rejects, and
  \<open>failing_read_example\<close> a save over a catalog that holds it. \<open>icon_env\<close> opens a catalog with a descriptor and an icon,
  parses the descriptor to \<open>icon_descriptor\<close>, compiles the icon pattern of
  \<open>AppIcon60x60\<close> to a test that accepts the icon's path among the catalog's paths, and
  has a decoder that rejects the icon.
\<close>

definition example_env :: "entry list \<Rightarrow> env" where
  "example_env es =
     \<lparr>getEntries = (\<lambda>f. Inr es),
      parsePlist = (\<lambda>b. Inl (Error ''not a property list'')),
      cgbiToPng = (\<lambda>b. Inl (Error ''not a CgBI image'')),
      RegExp = (\<lambda>src. Inr (\<lambda>p. False))\<rparr>"

definition dropped :: app where
  "dropped =
     \<lparr>files = Some [example_file], abortController = None, ipa = None, metadata = None,
      appIcon = None, extensions = [], extensionsToKeep = [], saving = False, progress = 0,
      progressMax = 0, progressText = ''Idle'', downloads = [], progressLog = []\<rparr>"

definition stray_appex :: entry where
  "stray_appex = \<lparr>filename = ''Extras/Helper.appex/'', directory = True, getData = None\<rparr>"

definition unreadable_descriptor :: entry where
  "unreadable_descriptor =
     \<lparr>filename = ''Payload/App.app/Info.plist'', directory = False,
      getData = Some (Inl (Error ''Invalid signature''))\<rparr>"


definition icon_file :: entry where
  "icon_file =
     \<lparr>filename = ''Payload/App.app/AppIcon60x60@2x.png'', directory = False,
      getData = Some (Inr [137, 80, 78, 71])\<rparr>"

definition icon_descriptor :: plist where
  "icon_descriptor =
     PDict [(''CFBundleName'', PString ''App''),
            (''CFBundleIcons'',
             PDict [(''CFBundlePrimaryIcon'',
                     PDict [(''CFBundleIconFiles'', PArray [PString ''AppIcon60x60''])])])]"

definition icon_env :: env where
  "icon_env =
     \<lparr>getEntries = (\<lambda>f. Inr [app_dir, info_plist, icon_file]),
      parsePlist = (\<lambda>b. Inr icon_descriptor),
      cgbiToPng = (\<lambda>b. Inl (Error ''not a CgBI image'')),
      RegExp = (\<lambda>src. if src = appIconRegex_source ''AppIcon60x60''
                        then Inr (\<lambda>p. p = ''Payload/App.app/AppIcon60x60@2x.png'')
                        else Inl (Error ''Invalid regular expression''))\<rparr>"

definition keep_all_example :: app where
  "keep_all_example =
     \<lparr>files = Some [\<lparr>name = ''App.ipa'', content = [80, 75, 3, 4]\<rparr>],
      abortController = Some False,
      ipa = Some [\<lparr>filename = ''Payload/App.app/'', directory = True, getData = None\<rparr>,
                  \<lparr>filename = ''Payload/App.app/PlugIns/Ext.appex/'', directory = True,
                   getData = None\<rparr>],
      metadata = None, appIcon = None,
      extensions = [\<lparr>filename = ''Payload/App.app/PlugIns/Ext.appex/'', directory = True,
                     getData = None\<rparr>],
      extensionsToKeep = [(''Payload/App.app/PlugIns/Ext.appex/'', True)],
      saving = True, progress = 0, progressMax = 0, progressText = ''Idle'',
      downloads = [], progressLog = []\<rparr>"

section \<open>Evaluating the examples\<close>

lemmas example_defs = example_file_def app_dir_def info_plist_def ext_dir_def ext_file_def
  no_accessor_def loaded_def spec_example_def no_accessor_example_def

lemmas run_defs = saveIPA'_def new_job_def addEventListener_def finish_def await_def
  abort_listener_def zadd_def settle_def set_progress_def saveBlob_def extensionsToRemove_def
  keeps_def skip_def startsWith_def

section \<open>The double product and its rounding\<close>

lemma bit_length_0: "bit_length 0 = 0"
  by (subst bit_length.simps) simp

lemma bit_length_Suc_0: "bit_length (Suc 0) = Suc 0"
  by (subst bit_length.simps) (simp add: bit_length_0)

lemma bit_length_numeral: "bit_length (numeral k) = Suc (bit_length (numeral k div 2))"
  by (subst bit_length.simps) simp

lemmas bit_length_eval = bit_length_numeral bit_length_0 bit_length_Suc_0

lemma bit_length_bounds: "0 < n \<Longrightarrow> 2 ^ (bit_length n - 1) \<le> n \<and> n < 2 ^ bit_length n"
proof (induction n rule: bit_length.induct)
  case (1 n)
  show ?case
  proof (cases "n div 2 = 0")
    case True
    with "1.prems" have "n = 1" by (simp add: div_eq_0_iff)
    then show ?thesis by (simp add: bit_length_Suc_0)
  next
    case False
    then have pos: "0 < n div 2" by simp
    from "1.IH" [OF _ pos] "1.prems"
    have ih: "2 ^ (bit_length (n div 2) - 1) \<le> n div 2" "n div 2 < 2 ^ bit_length (n div 2)"
      by simp_all
    have bl: "bit_length n = Suc (bit_length (n div 2))"
      using "1.prems" by (subst bit_length.simps) simp
    have "bit_length (n div 2) \<noteq> 0" using pos by (subst bit_length.simps) simp
    then obtain b where b: "bit_length (n div 2) = Suc b" by (cases "bit_length (n div 2)") auto
    from ih b have "2 * 2 ^ b \<le> n" "n < 2 * 2 ^ Suc b" by simp_all
    then show ?thesis by (simp add: bl b)
  qed
qed

lemma round_ties_even_error:
  "2 * (round_ties_even p s * 2 ^ s) \<le> 2 * p + 2 ^ s \<and> 2 * p \<le> 2 * (round_ties_even p s * 2 ^ s) + 2 ^ s"
proof -
  have p: "p = p div 2 ^ s * 2 ^ s + p mod 2 ^ s" by (simp only: div_mult_mod_eq)
  have r: "p mod 2 ^ s < 2 ^ s" by simp
  define q where "q = p div 2 ^ s"
  define r where "r = p mod 2 ^ s"
  define x where "x = (2::nat) ^ s"
  have p': "p = q * x + r" and r': "r < x" using p r by (simp_all add: q_def r_def x_def)
  have rt: "round_ties_even p s = q \<and> 2 * r \<le> x \<or> round_ties_even p s = q + 1 \<and> x \<le> 2 * r"
    by (auto simp: round_ties_even_def Let_def q_def r_def x_def)
  then show ?thesis
    unfolding x_def [symmetric]
  proof
    assume "round_ties_even p s = q \<and> 2 * r \<le> x"
    then show "2 * (round_ties_even p s * x) \<le> 2 * p + x \<and> 2 * p \<le> 2 * (round_ties_even p s * x) + x"
      using p' by simp
  next
    assume "round_ties_even p s = q + 1 \<and> x \<le> 2 * r"
    then show "2 * (round_ties_even p s * x) \<le> 2 * p + x \<and> 2 * p \<le> 2 * (round_ties_even p s * x) + x"
      using p' r' by (simp add: algebra_simps)
  qed
qed

lemma round_ties_even_grid: "t * 2 ^ s \<le> p \<Longrightarrow> t * 2 ^ s \<le> round_ties_even p s * 2 ^ s"
proof -
  assume "t * 2 ^ s \<le> p"
  then have "t \<le> p div 2 ^ s" by (simp add: less_eq_div_iff_mult_less_eq)
  moreover have "p div 2 ^ s \<le> round_ties_even p s" by (simp add: round_ties_even_def Let_def)
  ultimately show ?thesis by simp
qed

lemma shift_bounds:
  assumes "0 < n"
  shows "2 ^ (bit_length (n * double_1_1) - 53) * 4503599627370496 \<le> n * double_1_1"
proof -
  let ?P = "n * double_1_1"
  have pos: "0 < ?P" using assms by (simp add: double_1_1_def)
  have k: "4503599627370496 \<le> ?P" using assms by (simp add: double_1_1_def)
  show ?thesis
  proof (cases "bit_length ?P \<le> 53")
    case True
    then show ?thesis using k by simp
  next
    case False
    then have eq: "bit_length ?P - 1 = (bit_length ?P - 53) + 52" by simp
    have "(2::nat) ^ (bit_length ?P - 1) = 2 ^ (bit_length ?P - 53) * 2 ^ 52"
      by (subst eq) (rule power_add)
    then have "(2::nat) ^ (bit_length ?P - 53) * 4503599627370496 = 2 ^ (bit_length ?P - 1)"
      by simp
    moreover have "2 ^ (bit_length ?P - 1) \<le> ?P" using bit_length_bounds [OF pos] by simp
    ultimately show ?thesis by simp
  qed
qed

lemma shift_small:
  assumes "0 < n" and "n < 4294967296"
  shows "bit_length (n * double_1_1) - 53 \<le> 32"
proof (rule ccontr)
  let ?s = "bit_length (n * double_1_1) - 53"
  assume "\<not> ?s \<le> 32"
  then have "33 \<le> ?s" by simp
  then have "(2::nat) ^ 33 \<le> 2 ^ ?s" by (rule power_increasing) simp
  then have "(8589934592::nat) * 4503599627370496 \<le> 2 ^ ?s * 4503599627370496" by simp
  also have "\<dots> \<le> n * double_1_1" by (rule shift_bounds [OF assms(1)])
  also have "\<dots> < 4294967296 * 4953959590107546" using assms(2) by (simp add: double_1_1_def)
  finally show False by simp
qed

lemma Math_round_times_1_1_lower: "n \<le> Math_round_times_1_1 n"
proof (cases "n = 0")
  case True
  then show ?thesis by simp
next
  case False
  then have pos: "0 < n" by simp
  define s where "s = bit_length (n * double_1_1) - 53"
  define x where "x = (2::nat) ^ s"
  define R where "R = round_ties_even (n * double_1_1) s * x"
  have R: "times_1_1 n = R" by (simp add: times_1_1_def Let_def R_def x_def s_def)
  have e: "2 * (n * double_1_1) \<le> 2 * R + x"
    using round_ties_even_error [of "n * double_1_1" s] by (simp add: R_def x_def)
  have b: "x * 4503599627370496 \<le> n * double_1_1"
    using shift_bounds [OF pos] by (simp add: x_def s_def)
  have "x * 4503599627370496 \<le> n * 4953959590107546" using b by (simp add: double_1_1_def)
  then have x: "x \<le> 2 * n" by arith
  have "2 * (n * 4953959590107546) \<le> 2 * R + x" using e by (simp add: double_1_1_def)
  with x have "n * 9007199254740992 \<le> 2 * R + 4503599627370496" by arith
  then have "n \<le> (2 * R + 4503599627370496) div 9007199254740992"
    by (simp add: less_eq_div_iff_mult_less_eq)
  then show ?thesis by (simp add: Math_round_times_1_1_def R)
qed

lemma round_arith_pos: fixes M n r :: nat assumes "10 * M + r = 11 * n + 5" "r = 0" "0 < n" shows "1 \<le> M"
  using assms by linarith

lemma round_arith_grid: fixes M n r P :: nat
  assumes "10 * M + r = 11 * n + 5" "r = 0" "1 \<le> M" "10 * P = n * 49539595901075456 + 4 * n"
  shows "10 * ((2 * M - 1) * 2251799813685248) \<le> 10 * P"
proof -
  have "10 * ((2 * M - 1) * 2251799813685248) = (10 * M) * 4503599627370496 - 22517998136852480"
    using assms(3) by (simp add: algebra_simps diff_mult_distrib2)
  also have "10 * M = 11 * n + 5" using assms by simp
  also have "(11 * n + 5) * 4503599627370496 - 22517998136852480 = n * 49539595901075456"
    by (simp add: algebra_simps)
  finally show ?thesis using assms(4) by simp
qed

lemma round_arith_tie: fixes M R tx :: nat
  assumes "tx = (2 * M - 1) * 2251799813685248" "tx \<le> R" "1 \<le> M"
  shows "M * 9007199254740992 \<le> 2 * R + 4503599627370496"
proof -
  have "M * 9007199254740992 = 2 * ((2 * M - 1) * 2251799813685248) + 4503599627370496"
    using assms(3) by (simp add: algebra_simps diff_mult_distrib2)
  then show ?thesis using assms by simp
qed

lemma round_arith_lower: fixes M n r P R x :: nat
  assumes "10 * M + r = 11 * n + 5" "r \<noteq> 0" "10 * P = n * 49539595901075456 + 4 * n"
    "2 * P \<le> 2 * R + x" "x \<le> 4294967296"
  shows "M * 9007199254740992 \<le> 2 * R + 4503599627370496"
proof -
  have "10 * M * 4503599627370496 + r * 4503599627370496 = (11 * n + 5) * 4503599627370496"
    using assms(1) by (metis distrib_right)
  also have "\<dots> = 10 * P - 4 * n + 22517998136852480" using assms(3) by (simp add: algebra_simps)
  finally have a: "10 * M * 4503599627370496 + r * 4503599627370496 + 4 * n = 10 * P + 22517998136852480"
    using assms(3) by simp
  have "1 * 4503599627370496 \<le> r * 4503599627370496" using assms(2) by (intro mult_le_mono1) simp
  with a have "10 * M * 4503599627370496 + 4503599627370496 \<le> 10 * P + 22517998136852480" by linarith
  with assms(4,5) show ?thesis by linarith
qed

lemma round_arith_upper: fixes M n r P R x :: nat
  assumes "10 * M + r = 11 * n + 5" "r < 10" "10 * P = n * 49539595901075456 + 4 * n"
    "2 * R \<le> 2 * P + x" "x \<le> 4294967296" "n < 4294967296"
  shows "2 * R + 4503599627370496 < Suc M * 9007199254740992"
proof -
  have "10 * M * 4503599627370496 + r * 4503599627370496 = (11 * n + 5) * 4503599627370496"
    using assms(1) by (metis distrib_right)
  also have "\<dots> = 10 * P - 4 * n + 22517998136852480" using assms(3) by (simp add: algebra_simps)
  finally have a: "10 * M * 4503599627370496 + r * 4503599627370496 + 4 * n = 10 * P + 22517998136852480"
    using assms(3) by simp
  have "r * 4503599627370496 \<le> 9 * 4503599627370496" using assms(2) by (intro mult_le_mono1) simp
  with a assms(6) have "10 * P + 22517998136852480 \<le> 10 * M * 4503599627370496 + 40532396646334464 + 17179869184"
    by linarith
  with assms(4,5) show ?thesis by simp
qed

lemma Math_round_times_1_1_exact:
  assumes "n < 4294967296"
  shows "Math_round_times_1_1 n = (11 * n + 5) div 10"
proof (cases "n = 0")
  case True
  then show ?thesis
    by (simp add: Math_round_times_1_1_def times_1_1_def round_ties_even_def bit_length_0)
next
  case False
  then have pos: "0 < n" by simp
  define s where "s = bit_length (n * double_1_1) - 53"
  define x where "x = (2::nat) ^ s"
  define R where "R = round_ties_even (n * double_1_1) s * x"
  define P where "P = n * double_1_1"
  define M where "M = (11 * n + 5) div 10"
  define r where "r = (11 * n + 5) mod 10"
  have R: "times_1_1 n = R" by (simp add: times_1_1_def Let_def R_def x_def s_def)
  have Mr: "10 * M + r = 11 * n + 5" and r: "r < 10" by (simp_all add: M_def r_def)
  have P10: "10 * P = n * 49539595901075456 + 4 * n" by (simp add: P_def double_1_1_def)
  have e1: "2 * R \<le> 2 * P + x" and e2: "2 * P \<le> 2 * R + x"
    using round_ties_even_error [of "n * double_1_1" s] by (simp_all add: R_def x_def P_def)
  have s32: "s \<le> 32" using shift_small [OF pos assms] by (simp add: s_def)
  then have "x \<le> 2 ^ 32" unfolding x_def by (intro power_increasing) simp_all
  then have x: "x \<le> 4294967296" by simp
  have lower: "M * 9007199254740992 \<le> 2 * R + 4503599627370496"
  proof (cases "r = 0")
    case True
    have M1: "1 \<le> M" by (rule round_arith_pos [OF Mr True pos])
    define t where "t = (2 * M - 1) * 2 ^ (51 - s)"
    have "t * x = (2 * M - 1) * (2 ^ (51 - s) * 2 ^ s)" by (simp add: t_def x_def)
    also have "(2::nat) ^ (51 - s) * 2 ^ s = 2 ^ 51"
      using s32 by (simp add: power_add [symmetric])
    finally have tx: "t * x = (2 * M - 1) * 2251799813685248" by simp
    have "10 * (t * x) \<le> 10 * P" unfolding tx by (rule round_arith_grid [OF Mr True M1 P10])
    then have "t * x \<le> n * double_1_1" by (simp add: P_def)
    then have "t * x \<le> R" unfolding R_def x_def by (rule round_ties_even_grid)
    then show ?thesis using M1 by (intro round_arith_tie [OF tx])
  next
    case False
    show ?thesis by (rule round_arith_lower [OF Mr False P10 e2 x])
  qed
  have upper: "2 * R + 4503599627370496 < Suc M * 9007199254740992"
    by (rule round_arith_upper [OF Mr r P10 e1 x assms])
  have "(2 * R + 4503599627370496) div 9007199254740992 = M"
    using lower upper by (intro div_nat_eqI) (simp_all add: mult.commute)
  then show ?thesis by (simp add: Math_round_times_1_1_def R M_def)
qed

section \<open>Awaits and the entry loop\<close>

lemma await_quiet: "abortIn j = None \<Longrightarrow> await (a, j) = (a, j)"
  by (simp add: await_def)

lemma await_fire: "abortIn j = Some 0 \<Longrightarrow> await (a, j) = abort_listener (a, j\<lparr>abortIn := None\<rparr>)"
  by (simp add: await_def)

lemma await_tick: "abortIn j = Some (Suc k) \<Longrightarrow> await (a, j) = (a, j\<lparr>abortIn := Some k\<rparr>)"
  by (simp add: await_def)

lemma downloads_await [simp]: "downloads (fst (await aj)) = downloads (fst aj)"
  by (cases aj) (simp add: await_def abort_listener_def set_progress_def split: option.splits nat.splits)

lemma closed_await [simp]: "closed (snd (await aj)) = closed (snd aj)"
  by (cases aj) (simp add: await_def abort_listener_def split: option.splits nat.splits)

lemma thrown_await [simp]: "thrown (snd (await aj)) = thrown (snd aj)"
  by (cases aj) (simp add: await_def abort_listener_def split: option.splits nat.splits)

lemma snd_await_indep: "snd (await (a, j)) = snd (await (a', j))"
  by (simp add: await_def abort_listener_def split: option.splits nat.splits)

lemma set_progress_fields [simp]:
  "files (set_progress v a) = files a"
  "ipa (set_progress v a) = ipa a"
  "extensions (set_progress v a) = extensions a"
  "extensionsToKeep (set_progress v a) = extensionsToKeep a"
  "downloads (set_progress v a) = downloads a"
  "progressMax (set_progress v a) = progressMax a"
  "progress (set_progress v a) = v"
  "progressLog (set_progress v a) = progressLog a @ [v]"
  by (simp_all add: set_progress_def)

lemma extensionsToRemove_cong [simp]:
  "extensionsToRemove (a\<lparr>progressText := t\<rparr>) = extensionsToRemove a"
  "extensionsToRemove (set_progress v a) = extensionsToRemove a"
  by (simp_all add: extensionsToRemove_def set_progress_def)

lemma entry_loop_aborted: "aborted j \<Longrightarrow> entry_loop rm es (a, j) = (a, j)"
  by (cases es) simp_all

lemma entry_loop_Cons:
  "entry_loop rm (e # es) (a, j) =
     (if aborted j then (a, j)
      else if skip rm e then entry_loop rm es (set_progress (progress a + 1) a, j)
      else if directory e then
        entry_loop rm es (await ((set_progress (progress a + 1) a)\<lparr>progressText := dir_text e\<rparr>,
                                 zadd (ZDir (filename e)) j))
      else
        (case getData e of
           None \<Rightarrow> entry_loop rm es (set_progress (progress a + 1) a, j)
         | Some rd \<Rightarrow>
             (let r = await ((set_progress (progress a + 1) a)\<lparr>progressText := file_text e\<rparr>, j)
              in case rd of
                   Inl err \<Rightarrow> (fst r, (snd r)\<lparr>thrown := Some err\<rparr>)
                 | Inr d \<Rightarrow> entry_loop rm es (await (fst r, zadd (ZFile (filename e) d) (snd r))))))"
  by (simp add: Let_def split: option.splits sum.splits prod.splits)



lemma entry_loop_downloads: "downloads (fst (entry_loop rm es aj)) = downloads (fst aj)"
proof (induction es arbitrary: aj)
  case Nil
  show ?case by simp
next
  case (Cons e es)
  obtain a j where aj: "aj = (a, j)" by (cases aj)
  show ?case unfolding aj entry_loop_Cons
    by (simp add: Cons.IH set_progress_def Let_def split: option.splits sum.splits)
qed

lemma entry_loop_closed: "closed (snd (entry_loop rm es aj)) = closed (snd aj)"
proof (induction es arbitrary: aj)
  case Nil
  show ?case by simp
next
  case (Cons e es)
  obtain a j where aj: "aj = (a, j)" by (cases aj)
  show ?case unfolding aj entry_loop_Cons
    by (simp add: Cons.IH zadd_def Let_def split: option.splits sum.splits)
qed

lemma entry_loop_job_indep: "snd (entry_loop rm es (a, j)) = snd (entry_loop rm es (a', j))"
proof (induction es arbitrary: a a' j)
  case Nil
  show ?case by simp
next
  case (Cons e es)
  let ?r = "await ((set_progress (progress a + 1) a)\<lparr>progressText := file_text e\<rparr>, j)"
  let ?r' = "await ((set_progress (progress a' + 1) a')\<lparr>progressText := file_text e\<rparr>, j)"
  have r: "snd ?r = snd ?r'" by (rule snd_await_indep)
  have d: "snd (await ((set_progress (progress a + 1) a)\<lparr>progressText := dir_text e\<rparr>,
                       zadd (ZDir (filename e)) j))
         = snd (await ((set_progress (progress a' + 1) a')\<lparr>progressText := dir_text e\<rparr>,
                       zadd (ZDir (filename e)) j))"
    by (rule snd_await_indep)
  have pair: "\<And>x y. snd x = snd y \<Longrightarrow> snd (entry_loop rm es x) = snd (entry_loop rm es y)"
    using Cons.IH by (metis prod.collapse)
  have f: "\<And>z. snd (await (fst ?r, zadd z (snd ?r))) = snd (await (fst ?r', zadd z (snd ?r')))"
    using r snd_await_indep [of "fst ?r" _ "fst ?r'"] by simp
  show ?case
  proof (cases "aborted j")
    case True
    then show ?thesis by (simp add: entry_loop_aborted)
  next
    case na: False
    show ?thesis
    proof (cases "skip rm e")
      case True
      with na have st: "entry_loop rm (e # es) (a, j) = entry_loop rm es (set_progress (progress a + 1) a, j)"
        "entry_loop rm (e # es) (a', j) = entry_loop rm es (set_progress (progress a' + 1) a', j)"
        unfolding entry_loop_Cons by simp_all
      show ?thesis unfolding st by (rule Cons.IH)
    next
      case ns: False
      show ?thesis
      proof (cases "directory e")
        case True
        with na ns show ?thesis
          unfolding entry_loop_Cons [of rm e es a j] entry_loop_Cons [of rm e es a' j]
          by (simp only: if_True if_False) (rule pair [OF d])
      next
        case nd: False
        show ?thesis
        proof (cases "getData e")
          case None
          with na ns nd have st: "entry_loop rm (e # es) (a, j) = entry_loop rm es (set_progress (progress a + 1) a, j)"
            "entry_loop rm (e # es) (a', j) = entry_loop rm es (set_progress (progress a' + 1) a', j)"
            unfolding entry_loop_Cons by simp_all
          show ?thesis unfolding st by (rule Cons.IH)
        next
          case (Some rd)
          show ?thesis
          proof (cases rd)
            case (Inl err)
            with na ns nd Some r show ?thesis
              unfolding entry_loop_Cons [of rm e es a j] entry_loop_Cons [of rm e es a' j]
              by (simp add: Let_def)
          next
            case (Inr d)
            with na ns nd Some show ?thesis
              unfolding entry_loop_Cons [of rm e es a j] entry_loop_Cons [of rm e es a' j]
              by (simp add: Let_def del: One_nat_def) (rule pair [OF f])
          qed
        qed
      qed
    qed
  qed
qed


lemma advance_0: "advance a 0 (progressText a) = a"
  by (simp add: advance_def)

lemma advance_step:
  "advance ((set_progress (progress a + 1) a)\<lparr>progressText := tx\<rparr>) m t = advance a (Suc m) t"
  "advance (set_progress (progress a + 1) a) m t = advance a (Suc m) t"
  by (simp_all add: advance_def set_progress_def upt_conv_Cons del: upt_Suc)

lemma entry_loop_quiet_app:
  assumes "abortIn j = None" and "\<not> aborted j"
  shows "\<exists>m t. m \<le> length es \<and> fst (entry_loop rm es (a, j)) = advance a m t"
  using assms
proof (induction es arbitrary: a j)
  case Nil
  show ?case using advance_0 [of a] by (metis entry_loop.simps(1) fst_conv le_refl list.size(3))
next
  case (Cons e es)
  note na = \<open>\<not> aborted j\<close> and q = \<open>abortIn j = None\<close>
  have up: "\<And>x m t. m \<le> length es \<Longrightarrow> x = advance a (Suc m) t \<Longrightarrow>
      \<exists>m t. m \<le> length (e # es) \<and> x = advance a m t"
    by (metis Suc_le_mono length_Cons)
  show ?case
  proof (cases "skip rm e \<or> (\<not> directory e \<and> getData e = None)")
    case True
    then have st: "entry_loop rm (e # es) (a, j) = entry_loop rm es (set_progress (progress a + 1) a, j)"
      using na unfolding entry_loop_Cons by auto
    from Cons.IH [OF q na, of "set_progress (progress a + 1) a"]
    show ?thesis unfolding st advance_step by (metis up)
  next
    case False
    then have ns: "\<not> skip rm e" by simp
    show ?thesis
    proof (cases "directory e")
      case True
      have st: "entry_loop rm (e # es) (a, j) =
          entry_loop rm es ((set_progress (progress a + 1) a)\<lparr>progressText := dir_text e\<rparr>,
                            zadd (ZDir (filename e)) j)"
        using na ns True q unfolding entry_loop_Cons by (simp add: await_quiet zadd_def)
      have "abortIn (zadd (ZDir (filename e)) j) = None" "\<not> aborted (zadd (ZDir (filename e)) j)"
        using q na by (simp_all add: zadd_def)
      from Cons.IH [OF this, of "(set_progress (progress a + 1) a)\<lparr>progressText := dir_text e\<rparr>"]
      show ?thesis unfolding st advance_step by (metis up)
    next
      case nd: False
      with False obtain rd where rd: "getData e = Some rd" by auto
      show ?thesis
      proof (cases rd)
        case (Inl err)
        have st: "fst (entry_loop rm (e # es) (a, j)) =
            (set_progress (progress a + 1) a)\<lparr>progressText := file_text e\<rparr>"
          using na ns nd rd Inl q unfolding entry_loop_Cons by (simp add: await_quiet Let_def)
        have "(set_progress (progress a + 1) a)\<lparr>progressText := file_text e\<rparr>
              = advance a (Suc 0) (file_text e)"
          by (simp add: advance_def set_progress_def)
        then show ?thesis unfolding st by (intro up [of 0]) simp_all
      next
        case (Inr d)
        have st: "entry_loop rm (e # es) (a, j) =
            entry_loop rm es ((set_progress (progress a + 1) a)\<lparr>progressText := file_text e\<rparr>,
                              zadd (ZFile (filename e) d) j)"
          using na ns nd rd Inr q unfolding entry_loop_Cons
          by (simp add: await_quiet zadd_def Let_def)
        have "abortIn (zadd (ZFile (filename e) d) j) = None"
          "\<not> aborted (zadd (ZFile (filename e) d) j)"
          using q na by (simp_all add: zadd_def)
        from Cons.IH [OF this, of "(set_progress (progress a + 1) a)\<lparr>progressText := file_text e\<rparr>"]
        show ?thesis unfolding st advance_step by (metis up)
      qed
    qed
  qed
qed

lemma entry_loop_quiet_flags:
  assumes "abortIn j = None" and "\<not> aborted j"
  shows "abortIn (snd (entry_loop rm es (a, j))) = None
         \<and> \<not> aborted (snd (entry_loop rm es (a, j)))
         \<and> promise (snd (entry_loop rm es (a, j))) = promise j"
  using assms
proof (induction es arbitrary: a j)
  case Nil
  then show ?case by simp
next
  case (Cons e es)
  have z: "\<And>z. abortIn (zadd z j) = None \<and> \<not> aborted (zadd z j) \<and> promise (zadd z j) = promise j"
    using Cons.prems by (simp add: zadd_def)
  show ?case
    unfolding entry_loop_Cons
    using Cons.prems z Cons.IH
    by (simp add: await_quiet Let_def split: option.splits sum.splits)
qed


lemma entry_loop_omit:
  assumes "\<not> skip rm e" and "\<not> directory e" and "getData e = None"
  shows "snd (entry_loop rm (pre @ e # post) aj) = snd (entry_loop rm (pre @ post) aj)"
proof (induction pre arbitrary: aj)
  case Nil
  obtain a j where aj: "aj = (a, j)" by (cases aj)
  show ?case
  proof (cases "aborted j")
    case True
    then show ?thesis unfolding aj by (simp add: entry_loop_aborted)
  next
    case False
    with assms have st: "entry_loop rm (e # post) (a, j) =
        entry_loop rm post (set_progress (progress a + 1) a, j)"
      unfolding entry_loop_Cons by simp
    show ?thesis unfolding aj append_Nil st by (rule entry_loop_job_indep)
  qed
next
  case (Cons x pre)
  obtain a j where aj: "aj = (a, j)" by (cases aj)
  show ?case
    unfolding aj append_Cons entry_loop_Cons [of rm x]
    by (simp add: Cons.IH Let_def split: option.splits sum.splits)
qed

section \<open>Closing the writer and the whole rebuild\<close>

lemma abortIn_cases:
  obtains (quiet) "abortIn j = None" | (now) "abortIn j = Some 0"
    | (next_await) "abortIn j = Some (Suc 0)" | (later) k where "abortIn j = Some (Suc (Suc k))"
proof (cases "abortIn j")
  case None
  then show ?thesis by (rule quiet)
next
  case (Some n)
  show ?thesis
  proof (cases n)
    case 0
    with Some show ?thesis by (intro now) simp
  next
    case (Suc m)
    with Some show ?thesis by (cases m) (auto intro: next_await later)
  qed
qed

lemma finish_job_indep: "snd (finish f (a, j)) = snd (finish f (a', j))"
  by (cases j rule: abortIn_cases)
     (simp_all add: finish_def await_def abort_listener_def Let_def)

lemma finish_downloads:
  assumes "downloads a = downloads a'"
  shows "downloads (fst (finish f (a, j))) = downloads (fst (finish f (a', j)))"
  using assms
  by (cases j rule: abortIn_cases)
     (simp_all add: finish_def await_def abort_listener_def Let_def saveBlob_def set_progress_def)

lemma finish_thrown: "thrown j \<noteq> None \<Longrightarrow> finish f (a, j) = (a, j)"
  by (simp add: finish_def)

lemma finish_quiet:
  assumes "abortIn j = None" and "\<not> aborted j" and "thrown j = None"
  shows "finish f (a, j) =
          ((set_progress (progressMax a)
              (saveBlob (ZipBlob (case zipWriter j of None \<Rightarrow> [] | Some w \<Rightarrow> w)) (name f)
                 (a\<lparr>progressText := ''Saving archive''\<rparr>)))\<lparr>progressText := ''Done!''\<rparr>,
           j\<lparr>closed := True, promise := settle Resolved (promise j)\<rparr>)"
  using assms by (simp add: finish_def await_quiet Let_def saveBlob_def set_progress_def)


lemma saveIPA'_rebuild:
  assumes "files a = Some (f # fs)" and "ipa a = Some es"
    and "\<not> list_all snd (extensionsToKeep a)"
  shows "saveIPA' sig a =
           finish f (entry_loop (extensionsToRemove a) es
             ((set_progress 0 a)\<lparr>progressText := ''Creating new IPA archive'',
                                 progressMax := Math_round_times_1_1 (length es)\<rparr>,
              (new_job sig)\<lparr>zipWriter := Some []\<rparr>))"
  using assms by (simp add: saveIPA'_def Let_def)


lemma quiet_run:
  assumes "files a = Some (f # fs)" and "ipa a = Some es"
    and "\<not> list_all snd (extensionsToKeep a)"
    and "\<forall>k. sig \<noteq> AbortsDuring k"
  shows "\<exists>m \<le> length es.
           progressMax (fst (saveIPA' sig a)) = Math_round_times_1_1 (length es)
           \<and> (promise (snd (saveIPA' sig a)) = Pending
                \<and> progressLog (fst (saveIPA' sig a)) = progressLog a @ [0..<Suc m]
              \<or> promise (snd (saveIPA' sig a)) = Resolved
                \<and> progress (fst (saveIPA' sig a)) = Math_round_times_1_1 (length es)
                \<and> progressLog (fst (saveIPA' sig a)) =
                    progressLog a @ [0..<Suc m] @ [Math_round_times_1_1 (length es)])"
proof -
  let ?rm = "extensionsToRemove a"
  let ?M = "Math_round_times_1_1 (length es)"
  let ?a1 = "(set_progress 0 a)\<lparr>progressText := ''Creating new IPA archive'', progressMax := ?M\<rparr>"
  let ?j1 = "(new_job sig)\<lparr>zipWriter := Some []\<rparr>"
  define r where "r = entry_loop ?rm es (?a1, ?j1)"
  have q: "abortIn ?j1 = None" "\<not> aborted ?j1"
    using assms(4) by (cases sig) (simp_all add: new_job_def addEventListener_def)
  from entry_loop_quiet_app [OF q, where rm = ?rm and es = es and a = ?a1]
  obtain m t where m: "m \<le> length es" and a: "fst r = advance ?a1 m t"
    unfolding r_def by blast
  from entry_loop_quiet_flags [OF q, where rm = ?rm and es = es and a = ?a1]
  have fl: "abortIn (snd r) = None" "\<not> aborted (snd r)" "promise (snd r) = Pending"
    unfolding r_def by (simp_all add: new_job_def)
  have run: "saveIPA' sig a = finish f (fst r, snd r)"
    unfolding r_def using saveIPA'_rebuild [OF assms(1,2,3)] by simp
  have log: "progressLog (advance ?a1 m t) = progressLog a @ [0..<Suc m]"
    and mx: "progressMax (advance ?a1 m t) = ?M"
    by (simp_all add: advance_def upt_conv_Cons del: upt_Suc)
  show ?thesis
  proof (cases "thrown (snd r)")
    case None
    show ?thesis
      unfolding run finish_quiet [OF fl(1,2) None]
      using m by (intro exI [of _ m]) (simp add: a fl log mx saveBlob_def settle_def del: upt_Suc)
  next
    case (Some err)
    then have "thrown (snd r) \<noteq> None" by simp
    then show ?thesis
      unfolding run finish_thrown [OF \<open>thrown (snd r) \<noteq> None\<close>]
      using m by (intro exI [of _ m]) (simp add: a fl log mx del: upt_Suc)
  qed
qed

section \<open>Properties of the rebuild\<close>




text \<open>
  C2. When every value of the selection is \<open>true\<close>, \<open>_saveIPA\<close> creates no archive writer
  and hands the uploaded file itself to \<open>saveBlob\<close> under its own name; after the initial
  reset of \<open>progress\<close> to 0 it makes one progress update, 1 of 1, with the text "Done!", and
  resolves. This holds for every abort signal, since nothing is awaited on this path.
\<close>

theorem saveIPA_keep_all_returns_original:
  assumes "files a = Some (f # fs)" and "ipa a = Some es"
    and "\<forall>kv \<in> set (extensionsToKeep a). snd kv"
  shows "saveIPA' sig a =
           (a\<lparr>progress := 1, progressMax := 1, progressText := ''Done!'',
              downloads := downloads a @ [(FileBlob f, name f)],
              progressLog := progressLog a @ [0, 1]\<rparr>,
            \<lparr>aborted = False, promise = Resolved, abortIn = addEventListener sig,
             zipWriter = None, closed = False, thrown = None\<rparr>)"
  using assms
  by (simp add: saveIPA'_def new_job_def set_progress_def saveBlob_def settle_def list_all_iff)

theorem saveIPA_keep_all_returns_original_witness:
  "downloads (fst (saveIPA' NeverAborts keep_all_example)) =
     [(FileBlob \<lparr>name = ''App.ipa'', content = [80, 75, 3, 4]\<rparr>, ''App.ipa'')]
   \<and> progressLog (fst (saveIPA' NeverAborts keep_all_example)) = [0, 1]
   \<and> promise (snd (saveIPA' NeverAborts keep_all_example)) = Resolved"
  using saveIPA_keep_all_returns_original [of keep_all_example
      "\<lparr>name = ''App.ipa'', content = [80, 75, 3, 4]\<rparr>" "[]" _ NeverAborts]
  by (simp add: keep_all_example_def)




text \<open>
  C7, as amended. A rebuild that filters entries enters the entry loop with the progress
  total \<open>Math.round(entryCount * 1.1)\<close>, which for a catalog of fewer than \<open>2^32\<close> entries
  is \<open>(11 * entryCount + 5) div 10\<close>: the product rounded to the nearest integer, halves
  up. When the signal does not abort, this is still the total at the end of the run.
\<close>

theorem progress_total_is_rounded:
  assumes "files a = Some (f # fs)" and "ipa a = Some es"
    and "\<not> list_all snd (extensionsToKeep a)"
    and "length es < 4294967296"
  shows "saveIPA' sig a =
           finish f (entry_loop (extensionsToRemove a) es
             ((set_progress 0 a)\<lparr>progressText := ''Creating new IPA archive'',
                                 progressMax := (11 * length es + 5) div 10\<rparr>,
              (new_job sig)\<lparr>zipWriter := Some []\<rparr>))
         \<and> ((\<forall>k. sig \<noteq> AbortsDuring k) \<longrightarrow>
               progressMax (fst (saveIPA' sig a)) = (11 * length es + 5) div 10)"
proof
  show "saveIPA' sig a =
           finish f (entry_loop (extensionsToRemove a) es
             ((set_progress 0 a)\<lparr>progressText := ''Creating new IPA archive'',
                                 progressMax := (11 * length es + 5) div 10\<rparr>,
              (new_job sig)\<lparr>zipWriter := Some []\<rparr>))"
    unfolding saveIPA'_rebuild [OF assms(1-3)] Math_round_times_1_1_exact [OF assms(4)] ..
next
  show "(\<forall>k. sig \<noteq> AbortsDuring k) \<longrightarrow>
          progressMax (fst (saveIPA' sig a)) = (11 * length es + 5) div 10"
  proof
    assume "\<forall>k. sig \<noteq> AbortsDuring k"
    from quiet_run [OF assms(1-3) this] show
      "progressMax (fst (saveIPA' sig a)) = (11 * length es + 5) div 10"
      using Math_round_times_1_1_exact [OF assms(4)] by auto
  qed
qed

theorem progress_total_is_rounded_witness:
  "progressMax (fst (saveIPA' NeverAborts five_entries_example)) = 6"
proof -
  have h: "files five_entries_example = Some [example_file]"
    "ipa five_entries_example = Some [app_dir, info_plist, plugins_dir, ext_dir, ext_file]"
    "\<not> list_all snd (extensionsToKeep five_entries_example)"
    "length [app_dir, info_plist, plugins_dir, ext_dir, ext_file] < 4294967296"
    by (simp_all add: five_entries_example_def loaded_def)
  from progress_total_is_rounded [OF h, of NeverAborts, THEN conjunct2]
  show ?thesis by simp
qed

text \<open>
  C7 as stated fails: with five entries the total is 6, while the floor of the product
  \<open>5 * 1.1 = 5.5\<close> is 5, both for the double product and for the exact one.
\<close>

theorem progress_total_not_floor_counterexample:
  "ipa five_entries_example = Some [app_dir, info_plist, plugins_dir, ext_dir, ext_file]
   \<and> length [app_dir, info_plist, plugins_dir, ext_dir, ext_file] = 5
   \<and> progressMax (fst (saveIPA' NeverAborts five_entries_example)) = 6
   \<and> times_1_1 5 div 2 ^ 52 = 5
   \<and> (11 * 5) div 10 = (5::nat)"
proof -
  have a: "Math_round_times_1_1 5 = 6"
    using Math_round_times_1_1_exact [of 5] by simp
  have b: "times_1_1 5 div 2 ^ 52 = 5"
    by (simp add: times_1_1_def double_1_1_def round_ties_even_def Let_def bit_length_eval)
  have "progressMax (fst (saveIPA' NeverAborts five_entries_example))
        = Math_round_times_1_1 (length [app_dir, info_plist, plugins_dir, ext_dir, ext_file])"
    using quiet_run [of five_entries_example example_file "[]"
        "[app_dir, info_plist, plugins_dir, ext_dir, ext_file]" NeverAborts]
    by (auto simp: five_entries_example_def loaded_def)
  also have "length [app_dir, info_plist, plugins_dir, ext_dir, ext_file] = 5" by simp
  finally have c: "progressMax (fst (saveIPA' NeverAborts five_entries_example)) = 6"
    using a by simp
  show ?thesis using b c by (simp add: five_entries_example_def loaded_def)
qed

text \<open>
  C8, as amended. In a run of \<open>_saveIPA\<close> whose signal does not abort, the values assigned to
  \<open>progress\<close> are non-decreasing (also when a read fails and the run stops), and when the
  promise resolves \<open>progress\<close> equals \<open>progressMax\<close>, which is the total computed at the
  start: 1 when nothing is removed, \<open>Math.round(entryCount * 1.1)\<close> otherwise.
\<close>

theorem progress_nondecreasing_without_abort:
  assumes "\<forall>k. sig \<noteq> AbortsDuring k"
  shows "(\<exists>new. progressLog (fst (saveIPA' sig a)) = progressLog a @ new \<and> sorted new)
         \<and> (promise (snd (saveIPA' sig a)) = Resolved \<longrightarrow>
              progress (fst (saveIPA' sig a)) = progressMax (fst (saveIPA' sig a))
              \<and> (\<exists>es. ipa a = Some es
                    \<and> progressMax (fst (saveIPA' sig a)) =
                        (if list_all snd (extensionsToKeep a) then 1
                         else Math_round_times_1_1 (length es))))"
proof -
  consider (unloaded) "\<not> (\<exists>f fs es. files a = Some (f # fs) \<and> ipa a = Some es)"
    | (keep_all) f fs es where "files a = Some (f # fs)" "ipa a = Some es"
        "list_all snd (extensionsToKeep a)"
    | (rebuild) f fs es where "files a = Some (f # fs)" "ipa a = Some es"
        "\<not> list_all snd (extensionsToKeep a)"
    by blast
  then show ?thesis
  proof cases
    case unloaded
    then have "saveIPA' sig a =
        (set_progress 0 a, (new_job sig)\<lparr>promise := Rejected (Error ''IPA not loaded'')\<rparr>)"
      by (auto simp: saveIPA'_def Let_def new_job_def settle_def
          split: option.splits list.splits)
    then show ?thesis by simp
  next
    case keep_all
    then have "saveIPA' sig a =
        (saveBlob (FileBlob f) (name f)
           ((set_progress 1 ((set_progress 0 a)\<lparr>progressMax := 1\<rparr>))\<lparr>progressText := ''Done!''\<rparr>),
         (new_job sig)\<lparr>promise := Resolved\<rparr>)"
      by (simp add: saveIPA'_def Let_def new_job_def settle_def)
    with keep_all show ?thesis by (simp add: saveBlob_def)
  next
    case rebuild
    from quiet_run [OF rebuild assms]
    obtain m where m: "m \<le> length es"
      and mx: "progressMax (fst (saveIPA' sig a)) = Math_round_times_1_1 (length es)"
      and r: "promise (snd (saveIPA' sig a)) = Pending
                \<and> progressLog (fst (saveIPA' sig a)) = progressLog a @ [0..<Suc m]
              \<or> promise (snd (saveIPA' sig a)) = Resolved
                \<and> progress (fst (saveIPA' sig a)) = Math_round_times_1_1 (length es)
                \<and> progressLog (fst (saveIPA' sig a)) =
                    progressLog a @ [0..<Suc m] @ [Math_round_times_1_1 (length es)]"
      by blast
    have "m \<le> Math_round_times_1_1 (length es)"
      using m Math_round_times_1_1_lower [of "length es"] by simp
    then have s: "sorted ([0..<Suc m] @ [Math_round_times_1_1 (length es)])"
      by (simp add: sorted_append del: upt_Suc)
    from r show ?thesis
    proof
      assume "promise (snd (saveIPA' sig a)) = Pending
                \<and> progressLog (fst (saveIPA' sig a)) = progressLog a @ [0..<Suc m]"
      then show ?thesis by (simp del: upt_Suc)
    next
      assume "promise (snd (saveIPA' sig a)) = Resolved
                \<and> progress (fst (saveIPA' sig a)) = Math_round_times_1_1 (length es)
                \<and> progressLog (fst (saveIPA' sig a)) =
                    progressLog a @ [0..<Suc m] @ [Math_round_times_1_1 (length es)]"
      with s mx rebuild show ?thesis by (simp del: upt_Suc)
    qed
  qed
qed

theorem progress_nondecreasing_without_abort_witness:
  "sorted (progressLog (fst (saveIPA' NeverAborts spec_example)))
   \<and> promise (snd (saveIPA' NeverAborts spec_example)) = Resolved
   \<and> progress (fst (saveIPA' NeverAborts spec_example)) = 4
   \<and> progressMax (fst (saveIPA' NeverAborts spec_example)) = 4"
proof -
  have q: "\<forall>k. NeverAborts \<noteq> AbortsDuring k" by simp
  have l: "progressLog spec_example = []" by (simp add: example_defs)
  have r: "promise (snd (saveIPA' NeverAborts spec_example)) = Resolved"
    by (simp add: example_defs run_defs dir_text_def file_text_def Let_def)
  have e: "ipa spec_example = Some [app_dir, info_plist, ext_dir, ext_file]"
    "\<not> list_all snd (extensionsToKeep spec_example)"
    by (simp_all add: example_defs)
  have m: "Math_round_times_1_1 (Suc (Suc (Suc (Suc 0)))) = 4"
    using Math_round_times_1_1_exact [of "Suc (Suc (Suc (Suc 0)))"] by simp
  show ?thesis
    using progress_nondecreasing_without_abort [OF q, of spec_example] r
    by (simp add: l e m)
qed

text \<open>
  C8 as stated fails in an aborted run: the abort listener assigns 0 to \<open>progress\<close>. With the
  abort during the first await, \<open>progress\<close> goes 0, 1, 0.
\<close>

theorem progress_reset_on_abort_counterexample:
  "progressLog (fst (saveIPA' (AbortsDuring 0) spec_example)) = [0, 1, 0]
   \<and> \<not> sorted (progressLog (fst (saveIPA' (AbortsDuring 0) spec_example)))"
  by (simp add: example_defs run_defs dir_text_def file_text_def Let_def)

text \<open>
  C10. A file entry that lies under no removed path and has no content accessor is passed
  over: for every signal, the job of the rebuild (the entries given to the writer, the
  outcome of the promise, any exception, whether the writer was closed) and the downloads
  are those of the rebuild of the catalog without that entry.
\<close>

theorem entry_without_accessor_is_omitted:
  assumes "files a = Some (f # fs)" and "ipa a = Some (pre @ e # post)"
    and "\<not> list_all snd (extensionsToKeep a)"
    and "\<not> skip (extensionsToRemove a) e" and "\<not> directory e" and "getData e = None"
  shows "snd (saveIPA' sig a) = snd (saveIPA' sig (a\<lparr>ipa := Some (pre @ post)\<rparr>))
         \<and> downloads (fst (saveIPA' sig a)) =
             downloads (fst (saveIPA' sig (a\<lparr>ipa := Some (pre @ post)\<rparr>)))"
proof -
  let ?rm = "extensionsToRemove a"
  let ?b = "a\<lparr>ipa := Some (pre @ post)\<rparr>"
  let ?j1 = "(new_job sig)\<lparr>zipWriter := Some []\<rparr>"
  let ?a1 = "(set_progress 0 a)\<lparr>progressText := ''Creating new IPA archive'',
               progressMax := Math_round_times_1_1 (length (pre @ e # post))\<rparr>"
  let ?b1 = "(set_progress 0 ?b)\<lparr>progressText := ''Creating new IPA archive'',
               progressMax := Math_round_times_1_1 (length (pre @ post))\<rparr>"
  define r where "r = entry_loop ?rm (pre @ e # post) (?a1, ?j1)"
  define r' where "r' = entry_loop ?rm (pre @ post) (?b1, ?j1)"
  have rm: "extensionsToRemove ?b = ?rm" by (simp add: extensionsToRemove_def)
  have run: "saveIPA' sig a = finish f (fst r, snd r)"
    unfolding r_def using saveIPA'_rebuild [OF assms(1,2,3)] by simp
  have run': "saveIPA' sig ?b = finish f (fst r', snd r')"
    unfolding r'_def using saveIPA'_rebuild [of ?b f fs "pre @ post" sig] assms(1,3)
    by (simp add: rm)
  have "snd r = snd (entry_loop ?rm (pre @ post) (?a1, ?j1))"
    unfolding r_def by (rule entry_loop_omit [OF assms(4,5,6)])
  also have "\<dots> = snd r'" unfolding r'_def by (rule entry_loop_job_indep)
  finally have j: "snd r = snd r'" .
  have d: "downloads (fst r) = downloads (fst r')"
    unfolding r_def r'_def by (simp add: entry_loop_downloads)
  show ?thesis
    unfolding run run' j
    using finish_job_indep [of f "fst r" "snd r'" "fst r'"] finish_downloads [OF d, of f "snd r'"]
    by simp
qed

theorem entry_without_accessor_is_omitted_witness:
  "zipWriter (snd (saveIPA' NeverAborts no_accessor_example)) = Some [ZDir ''Payload/App.app/'']
   \<and> promise (snd (saveIPA' NeverAborts no_accessor_example)) = Resolved
   \<and> thrown (snd (saveIPA' NeverAborts no_accessor_example)) = None"
proof -
  have b: "no_accessor_example\<lparr>ipa := Some ([app_dir] @ [ext_dir, ext_file])\<rparr>
           = loaded [app_dir, ext_dir, ext_file] False"
    by (simp add: example_defs)
  have r: "snd (saveIPA' NeverAborts (loaded [app_dir, ext_dir, ext_file] False)) =
      \<lparr>aborted = False, promise = Resolved, abortIn = None,
       zipWriter = Some [ZDir ''Payload/App.app/''], closed = True, thrown = None\<rparr>"
    by (simp add: example_defs run_defs dir_text_def file_text_def Let_def)
  show ?thesis
    using entry_without_accessor_is_omitted [of no_accessor_example example_file "[]"
        "[app_dir]" no_accessor "[ext_dir, ext_file]" NeverAborts]
    unfolding b r
    by (simp add: example_defs extensionsToRemove_def keeps_def skip_def startsWith_def)
qed

section \<open>Loading\<close>

lemma split_slash_not_Nil: "split_slash p \<noteq> []"
  by (induction p) (auto split: list.splits)

lemma join_split_slash: "join_slash (split_slash p) = p"
proof (induction p)
  case Nil
  show ?case by simp
next
  case (Cons c cs)
  obtain x xs where s: "split_slash cs = x # xs"
    using split_slash_not_Nil [of cs] by (cases "split_slash cs") auto
  with Cons show ?case by (cases xs) auto
qed

lemma endsWith_append: "endsWith (xs @ s) s"
  by (simp add: endsWith_def)

lemma endsWithD: "endsWith s p \<Longrightarrow> \<exists>xs. s = xs @ p"
  unfolding endsWith_def by (metis append_take_drop_id)

lemma convention_endsWith:
  assumes "subcomponent_convention p"
  shows "endsWith p ''.appex/''"
proof -
  from assms obtain a b c d where s: "split_slash p = [a, b, c, d, []]"
    and d: "endsWith d ''.appex''"
    by (auto simp: subcomponent_convention_def split: list.splits)
  from d obtain d' where d': "d = d' @ ''.appex''" using endsWithD by blast
  have "p = join_slash (split_slash p)" by (simp add: join_split_slash)
  also have "\<dots> = (a @ ''/'' @ b @ ''/'' @ c @ ''/'' @ d') @ ''.appex/''"
    unfolding s d' by simp
  finally show ?thesis by (metis endsWith_append)
qed

lemma loadIcon_fields:
  "extensions (fst (loadIcon env a)) = extensions a"
  "abortController (fst (loadIcon env a)) = abortController a"
  "ipa (fst (loadIcon env a)) = ipa a"
  "metadata (fst (loadIcon env a)) = metadata a"
  by (simp_all add: loadIcon_def split: option.splits sum.splits)

lemma loadIPA_extensions:
  assumes "files a = Some (f # fs)" and "getEntries env f = Inr entries"
  shows "extensions (fst (loadIPA env a)) = discover entries"
  using assms by (simp add: loadIPA_def Let_def loadIcon_fields split: sum.splits)

lemma loadIPA_opened:
  assumes "files a = Some (f # fs)" and "getEntries env f = Inr entries"
  shows "loadIPA env a =
           (let a1 = a\<lparr>ipa := Some entries, extensions := discover entries,
                        extensionsToKeep :=
                          fromEntries (map (\<lambda>extension. (filename extension, True))
                                           (discover entries))\<rparr>
            in case getMetadata env a1 of
                 Inl err \<Rightarrow> (a1, Some err)
               | Inr md \<Rightarrow> loadIcon env (a1\<lparr>metadata := md\<rparr>))"
  using assms by (simp add: loadIPA_def)

lemma loadIPA_abortController: "abortController (fst (loadIPA env a)) = abortController a"
  by (simp add: loadIPA_def Let_def loadIcon_fields split: option.splits list.splits sum.splits)

text \<open>
  The failures \<open>getMetadata\<close> handles: when no entry matches the descriptor pattern, or
  the first match has no content accessor, or its bytes are read and the parser rejects
  them, the load ends without an exception, with the catalog stored, no metadata and the
  icon untouched.
\<close>

lemma getMetadata_handled_failures:
  assumes "files a = Some (f # fs)" and "getEntries env f = Inr entries"
    and "find (\<lambda>entry. rx_test metadataRegex (filename entry)) entries = None
         \<or> (\<exists>me. find (\<lambda>entry. rx_test metadataRegex (filename entry)) entries = Some me
                \<and> (getData me = None
                     \<or> (\<exists>d err. getData me = Some (Inr d) \<and> parsePlist env d = Inl err)))"
  shows "snd (loadIPA env a) = None
         \<and> metadata (fst (loadIPA env a)) = None
         \<and> ipa (fst (loadIPA env a)) = Some entries
         \<and> appIcon (fst (loadIPA env a)) = appIcon a"
proof -
  let ?a1 = "a\<lparr>ipa := Some entries, extensions := discover entries,
                 extensionsToKeep :=
                   fromEntries (map (\<lambda>extension. (filename extension, True))
                                    (discover entries))\<rparr>"
  have "getMetadata env ?a1 = Inr None"
    using assms(3) by (auto simp: getMetadata_def)
  then have "loadIPA env a = (?a1\<lparr>metadata := None\<rparr>, None)"
    unfolding loadIPA_opened [OF assms(1,2)] by (simp add: loadIcon_def)
  then show ?thesis by simp
qed

lemma getMetadata_handled_failures_example:
  "snd (loadIPA (example_env [app_dir, info_plist, ext_dir, ext_file]) dropped) = None
   \<and> metadata (fst (loadIPA (example_env [app_dir, info_plist, ext_dir, ext_file]) dropped))
       = None
   \<and> ipa (fst (loadIPA (example_env [app_dir, info_plist, ext_dir, ext_file]) dropped))
       = Some [app_dir, info_plist, ext_dir, ext_file]"
proof -
  have m: "find (\<lambda>entry. rx_test metadataRegex (filename entry))
             [app_dir, info_plist, ext_dir, ext_file] = Some info_plist"
    by (simp add: rx_test_def metadataRegex_def example_defs startsWith_def in_cls_def)
  have "getData info_plist = Some (Inr [98, 112])"
    "parsePlist (example_env [app_dir, info_plist, ext_dir, ext_file]) [98, 112]
       = Inl (Error ''not a property list'')"
    by (simp_all add: info_plist_def example_env_def)
  with m show ?thesis
    using getMetadata_handled_failures [of dropped example_file "[]"
        "example_env [app_dir, info_plist, ext_dir, ext_file]"
        "[app_dir, info_plist, ext_dir, ext_file]"]
    by (simp add: dropped_def example_env_def)
qed

section \<open>Properties of loading\<close>

text \<open>
  C4, as amended. After a load that opened the archive, the discovered extensions are
  exactly the directory entries whose path ends with \<open>.appex/\<close> (case-sensitive), in
  catalog order, wherever they lie in the archive. In particular every directory entry that
  follows the convention \<open>Payload/<x>.app/PlugIns/<y>.appex/\<close> is discovered.
\<close>

theorem discovered_iff_appex_directory:
  assumes "files a = Some (f # fs)" and "getEntries env f = Inr entries"
  shows "extensions (fst (loadIPA env a)) =
           filter (\<lambda>e. directory e \<and> endsWith (filename e) ''.appex/'') entries
         \<and> (\<forall>e \<in> set entries. directory e \<and> subcomponent_convention (filename e)
               \<longrightarrow> e \<in> set (extensions (fst (loadIPA env a))))"
  unfolding loadIPA_extensions [OF assms]
  by (auto simp: discover_def convention_endsWith)

theorem discovered_iff_appex_directory_witness:
  "extensions (fst (loadIPA (example_env [app_dir, plugins_dir, ext_dir, ext_file]) dropped))
     = [ext_dir]
   \<and> subcomponent_convention (filename ext_dir)"
  using discovered_iff_appex_directory [of dropped example_file "[]"
      "example_env [app_dir, plugins_dir, ext_dir, ext_file]"
      "[app_dir, plugins_dir, ext_dir, ext_file]"]
  by (simp add: dropped_def example_env_def example_defs plugins_dir_def endsWith_def
      subcomponent_convention_def)

text \<open>
  C4 as stated fails: the directory \<open>Extras/Helper.appex/\<close> is outside the application
  directory and outside any plug-ins directory, \<open>extensionRegex\<close> does not match it, and it
  is discovered all the same.
\<close>

theorem stray_appex_is_discovered_counterexample:
  "extensions (fst (loadIPA (example_env [app_dir, stray_appex]) dropped)) = [stray_appex]
   \<and> \<not> subcomponent_convention (filename stray_appex)
   \<and> getExtensionName (filename stray_appex) = None"
proof -
  have "extensions (fst (loadIPA (example_env [app_dir, stray_appex]) dropped))
        = discover [app_dir, stray_appex]"
    by (rule loadIPA_extensions [of _ example_file "[]"])
       (simp_all add: dropped_def example_env_def)
  moreover have "discover [app_dir, stray_appex] = [stray_appex]"
    by (simp add: discover_def app_dir_def stray_appex_def endsWith_def)
  moreover have "\<not> subcomponent_convention (filename stray_appex)"
    by (simp add: subcomponent_convention_def stray_appex_def)
  moreover have "getExtensionName (filename stray_appex) = None"
    by (simp add: getExtensionName_def extensionRegex_def stray_appex_def startsWith_def)
  ultimately show ?thesis by simp
qed

text \<open>
  C5. The claim asks that a failure to read the descriptor gives "no metadata" and leaves
  the load running, as the other failures of \<open>getMetadata\<close> do (lemma
  \<open>getMetadata_handled_failures\<close>). The code breaks it: the read of the matched entry
  stands one line above the \<open>try\<close> block, so when it rejects the error leaves \<open>getMetadata\<close>
  and ends \<open>loadIPA\<close>. Here the catalog holds the application directory and a descriptor
  whose read rejects with "Invalid signature".
\<close>

theorem unreadable_descriptor_aborts_load:
  "getMetadata (example_env [app_dir, unreadable_descriptor])
     (dropped\<lparr>ipa := Some [app_dir, unreadable_descriptor]\<rparr>) = Inl (Error ''Invalid signature'')
   \<and> snd (loadIPA (example_env [app_dir, unreadable_descriptor]) dropped)
       = Some (Error ''Invalid signature'')"
  by (simp add: loadIPA_def getMetadata_def Let_def dropped_def example_env_def app_dir_def
      unreadable_descriptor_def rx_test_def metadataRegex_def startsWith_def in_cls_def)

text \<open>
  C6, as amended. When the icon entry is resolved and read and the decoder fails, the
  decoder's error leaves \<open>loadIPA\<close> as an exception; the catalog, the extensions, the
  selection and the metadata are stored by then, and the icon keeps its previous value.
\<close>

theorem decoder_failure_ends_load:
  assumes "files a = Some (f # fs)" and "getEntries env f = Inr entries"
    and "find (\<lambda>entry. rx_test metadataRegex (filename entry)) entries = Some me"
    and "getData me = Some (Inr d)" and "parsePlist env d = Inr md"
    and "js_member md ''CFBundleIcons'' = Some cfBundleIcons" and "truthy (Some cfBundleIcons)"
    and "js_member cfBundleIcons ''CFBundlePrimaryIcon'' = Some primaryIcon"
    and "js_member primaryIcon ''CFBundleIconFiles'' = Some iconFiles"
    and "RegExp env (appIconRegex_source (template (index0 iconFiles))) = Inr regex"
    and "find (\<lambda>entry. regex (filename entry)) entries = Some iconEntry"
    and "getData iconEntry = Some (Inr iconData)"
    and "cgbiToPng env iconData = Inl err"
  shows "loadIPA env a =
           (a\<lparr>ipa := Some entries, extensions := discover entries,
              extensionsToKeep :=
                fromEntries (map (\<lambda>extension. (filename extension, True)) (discover entries)),
              metadata := Some md\<rparr>,
            Some err)"
proof -
  let ?a1 = "a\<lparr>ipa := Some entries, extensions := discover entries,
                 extensionsToKeep :=
                   fromEntries (map (\<lambda>extension. (filename extension, True))
                                    (discover entries))\<rparr>"
  have "getMetadata env ?a1 = Inr (Some md)"
    using assms(3,4,5) by (simp add: getMetadata_def)
  moreover have "loadIcon env (?a1\<lparr>metadata := Some md\<rparr>) = (?a1\<lparr>metadata := Some md\<rparr>, Some err)"
    using assms(6-13) by (simp add: loadIcon_def)
  ultimately show ?thesis
    unfolding loadIPA_opened [OF assms(1,2)] by simp
qed

theorem decoder_failure_ends_load_witness:
  "snd (loadIPA icon_env dropped) = Some (Error ''not a CgBI image'')
   \<and> appIcon (fst (loadIPA icon_env dropped)) = None
   \<and> metadata (fst (loadIPA icon_env dropped)) = Some icon_descriptor
   \<and> ipa (fst (loadIPA icon_env dropped)) = Some [app_dir, info_plist, icon_file]"
proof -
  have m: "find (\<lambda>entry. rx_test metadataRegex (filename entry)) [app_dir, info_plist, icon_file]
           = Some info_plist"
    by (simp add: rx_test_def metadataRegex_def example_defs icon_file_def startsWith_def
        in_cls_def)
  have i: "find (\<lambda>entry. filename entry = ''Payload/App.app/AppIcon60x60@2x.png'')
             [app_dir, info_plist, icon_file] = Some icon_file"
    by (simp add: example_defs icon_file_def)
  have r: "RegExp icon_env (appIconRegex_source (template (index0 (PArray [PString ''AppIcon60x60'']))))
           = Inr (\<lambda>p. p = ''Payload/App.app/AppIcon60x60@2x.png'')"
    by (simp add: icon_env_def template_def index0_def)
  show ?thesis
    using decoder_failure_ends_load [of dropped example_file "[]" icon_env
        "[app_dir, info_plist, icon_file]" info_plist "[98, 112]" icon_descriptor
        "PDict [(''CFBundlePrimaryIcon'',
                 PDict [(''CFBundleIconFiles'', PArray [PString ''AppIcon60x60''])])]"
        "PDict [(''CFBundleIconFiles'', PArray [PString ''AppIcon60x60''])]"
        "PArray [PString ''AppIcon60x60'']"
        "\<lambda>p. p = ''Payload/App.app/AppIcon60x60@2x.png''" icon_file "[137, 80, 78, 71]"
        "Error ''not a CgBI image''"] m i r
    by (simp add: dropped_def icon_env_def info_plist_def icon_file_def icon_descriptor_def
        js_member_def truthy_def)
qed

text \<open>
  C6 as stated fails: nothing in \<open>loadIPA\<close> catches the decoder's error, so the load ends
  with it.
\<close>

theorem decoder_failure_aborts_load_counterexample:
  "snd (loadIPA icon_env dropped) = Some (Error ''not a CgBI image'')"
proof -
  let ?a1 = "dropped\<lparr>ipa := Some [app_dir, info_plist, icon_file],
                      extensions := discover [app_dir, info_plist, icon_file],
                      extensionsToKeep :=
                        fromEntries (map (\<lambda>extension. (filename extension, True))
                                         (discover [app_dir, info_plist, icon_file]))\<rparr>"
  have m: "find (\<lambda>entry. rx_test metadataRegex (filename entry)) [app_dir, info_plist, icon_file]
           = Some info_plist"
    by (simp add: rx_test_def metadataRegex_def example_defs icon_file_def startsWith_def
        in_cls_def)
  have i: "find (\<lambda>entry. filename entry = ''Payload/App.app/AppIcon60x60@2x.png'')
             [app_dir, info_plist, icon_file] = Some icon_file"
    by (simp add: example_defs icon_file_def)
  have gd: "getData info_plist = Some (Inr [98, 112])"
    "getData icon_file = Some (Inr [137, 80, 78, 71])"
    by (simp_all add: info_plist_def icon_file_def)
  have g: "getMetadata icon_env ?a1 = Inr (Some icon_descriptor)"
    by (simp add: getMetadata_def m gd icon_env_def del: find.simps)
  have l: "loadIcon icon_env (?a1\<lparr>metadata := Some icon_descriptor\<rparr>)
           = (?a1\<lparr>metadata := Some icon_descriptor\<rparr>, Some (Error ''not a CgBI image''))"
    by (simp add: loadIcon_def icon_descriptor_def js_member_def truthy_def template_def
        index0_def icon_env_def i gd del: find.simps)
  have f: "files dropped = Some [example_file]" by (simp add: dropped_def)
  have e: "getEntries icon_env example_file = Inr [app_dir, info_plist, icon_file]"
    by (simp add: icon_env_def)
  have "loadIPA icon_env dropped = (?a1\<lparr>metadata := Some icon_descriptor\<rparr>,
                                    Some (Error ''not a CgBI image''))"
    unfolding loadIPA_opened [OF f e] Let_def g by (simp add: l)
  then show ?thesis by simp
qed

section \<open>Properties of the save button\<close>

lemma in_flight_abortController: "in_flight a \<Longrightarrow> abortController a \<noteq> None"
proof (induction rule: in_flight.induct)
  case (entered a a1)
  then show ?case by (auto simp: saveIPA_enter_def split: if_splits)
next
  case (job_write a p m t d l)
  then show ?case by simp
next
  case (cleared a)
  then show ?case
    by (auto simp: clearIPA_def Let_def set_progress_def split: option.splits bool.splits)
next
  case (toggled a k)
  then show ?case by (simp add: toggle_def)
next
  case (loaded a env)
  then show ?case by (simp add: loadIPA_abortController)
qed

text \<open>
  C9. While a call of \<open>saveIPA\<close> is in flight, a further call returns at once: the state
  is unchanged and no job is started. The guard holds through \<open>abortController\<close>, which
  stays set until the \<open>finally\<close> block, also after \<open>clearIPA\<close> has reset \<open>saving\<close>.
\<close>

theorem save_while_in_flight_is_ignored:
  assumes "in_flight a"
  shows "saveIPA abortAt a = (a, None) \<and> saveIPA_enter a = None"
  using in_flight_abortController [OF assms] by (simp add: saveIPA_def saveIPA_enter_def)

theorem save_while_in_flight_is_ignored_witness:
  "saveIPA None (clearIPA spec_example) = (clearIPA spec_example, None)
   \<and> \<not> saving (clearIPA spec_example)
   \<and> abortController (clearIPA spec_example) = Some True"
proof -
  have "saveIPA_enter (spec_example\<lparr>abortController := None, saving := False\<rparr>) = Some spec_example"
    by (simp add: saveIPA_enter_def example_defs)
  then have "in_flight spec_example" by (rule in_flight.entered)
  then have "in_flight (clearIPA spec_example)" by (rule in_flight.cleared)
  from save_while_in_flight_is_ignored [OF this, of None] show ?thesis
    by (simp add: clearIPA_def example_defs set_progress_def)
qed

end
